theory Spec2Isabelle
  imports Main "HOL-Library.Sublist" "HOL-Library.AList"
begin

section \<open>Strings\<close>

text \<open>
  JavaScript strings are modelled as \<^typ>\<open>string\<close>. Header names are ASCII tokens, so
  \<open>String.prototype.toLowerCase\<close> is modelled on the ASCII letters and is the identity
  on every other character.
\<close>

definition toLowerCase_char :: "char \<Rightarrow> char" where
  "toLowerCase_char c =
     (case map_of (zip ''ABCDEFGHIJKLMNOPQRSTUVWXYZ'' ''abcdefghijklmnopqrstuvwxyz'') c of
        None \<Rightarrow> c
      | Some l \<Rightarrow> l)"

definition toLowerCase :: "string \<Rightarrow> string" where
  "toLowerCase s = map toLowerCase_char s"

text \<open>
  \<open>policyHeader.split(/[,\s]+/)\<close>: a separator is a comma or a character of the class
  \<open>\s\<close> (tab, line feed, vertical tab, form feed, carriage return, space, no-break
  space). A maximal run of separators ends the current token; a run at the start or at
  the end of the string leaves an empty token there, and the empty string splits into one
  empty token. The flag of \<open>splitFrom\<close> says that the previous character was a separator.
\<close>

definition isSeparator :: "char \<Rightarrow> bool" where
  "isSeparator c =
     (c \<in> {CHR '','', CHR 0x09, CHR 0x0A, CHR 0x0B, CHR 0x0C, CHR 0x0D, CHR '' '', CHR 0xA0})"

fun splitFrom :: "bool \<Rightarrow> string \<Rightarrow> string list" where
  "splitFrom inRun [] = [[]]"
| "splitFrom inRun (c # cs) =
     (if isSeparator c
      then (if inRun then splitFrom True cs else [] # splitFrom True cs)
      else (case splitFrom False cs of [] \<Rightarrow> [[c]] | t # ts \<Rightarrow> (c # t) # ts))"

definition splitPolicy :: "string \<Rightarrow> string list" where
  "splitPolicy s = splitFrom False s"

section \<open>Data model\<close>

text \<open>
  Every failure of the source is a \<open>TypeError\<close> told apart by its message; the model
  keeps one constructor per \<open>throw\<close>, with the values the message interpolates.
  \<open>InvalidURL\<close> is the \<open>TypeError\<close> of \<open>new URL(...)\<close>; \<open>External\<close> is a rejection of the
  transport or of the cookie jar, passed through.
\<close>

datatype error =
    RedirectNotAllowed string
  | InvalidRedirectOption string
  | MaxRedirectReached int string
  | StreamBodyRedirect
  | InvalidURL
  | External string

text \<open>
  A header collection is an object that several request records may share, so header
  collections live in a store and a record holds a reference. \<open>HeadersObj\<close> is an
  instance of the \<open>Headers\<close> class (it has \<open>append\<close> and \<open>delete\<close>); \<open>PlainObj\<close> is a
  plain object, given by its own enumerable properties in order; \<open>PairArray\<close> is an
  array of name/value pairs, the third form of \<open>HeadersInit\<close>, where \<open>None\<close> is a hole
  (an index that \<open>delete\<close> has removed). The casts of the source do nothing at run time,
  so a value of any of the three shapes can reach every function.
\<close>

datatype hobj =
    HeadersObj "(string \<times> string) list"
  | PlainObj "(string \<times> string) list"
  | PairArray "(string \<times> string) option list"

type_synonym store = "hobj list"

definition lookup :: "store \<Rightarrow> nat \<Rightarrow> hobj option" where
  "lookup \<sigma> r = (if r < length \<sigma> then Some (\<sigma> ! r) else None)"

definition alloc :: "store \<Rightarrow> hobj \<Rightarrow> nat \<times> store" where
  "alloc \<sigma> h = (length \<sigma>, \<sigma> @ [h])"

text \<open>
  The own enumerable keys of an array are its indices in decimal notation, and the
  properties of an array are its elements under these keys, holes left out. An element
  is a pair; where a property value is a string, the pair stands as the string that the
  platform makes of it, its two parts joined by a comma.
\<close>

function decimal :: "nat \<Rightarrow> string" where
  "decimal n =
     (if n < 10 then [''0123456789'' ! n]
      else decimal (n div 10) @ [''0123456789'' ! (n mod 10)])"
  by pat_completeness auto
termination
  by (relation "measure (\<lambda>n. n)") auto

declare decimal.simps [simp del]

definition indexed :: "'a option list \<Rightarrow> (nat \<times> 'a option) list" where
  "indexed es = zip [0..<length es] es"

definition properties :: "(string \<times> string) option list \<Rightarrow> (string \<times> string) list" where
  "properties es =
     concat (map (\<lambda>(n, e). case e of
                               None \<Rightarrow> []
                             | Some (k, v) \<Rightarrow> [(decimal n, k @ '','' @ v)])
               (indexed es))"

text \<open>
  A request body is seen by the source only through the presence of a \<open>pipe\<close> function
  (a Node.js \<open>Readable\<close>) and of a \<open>pipeTo\<close> function (a \<open>ReadableStream\<close>).
\<close>

record body =
  hasPipe :: bool
  hasPipeTo :: bool
  content :: string

text \<open>
  \<open>FetchCookieInit\<close>: every field is optional, \<open>None\<close> is \<open>undefined\<close>. A call without
  \<open>init\<close> is the record with every field \<open>None\<close>. The numbers are integers here, and
  the field \<open>method\<close> is named \<open>httpMethod\<close>.
\<close>

record init =
  httpMethod :: "string option"
  headers :: "nat option"
  body :: "body option"
  redirect :: "string option"
  referrerPolicy :: "string option"
  maxRedirect :: "int option"
  redirectCount :: "int option"

text \<open>\<open>RequestInfo\<close>: a URL string, or a \<open>Request\<close> object with its URL and its headers.\<close>

datatype input =
    UrlString string
  | RequestObj string nat

text \<open>
  The response's \<open>Headers\<close> is a list of name/value pairs, with the retrieval methods it
  offers: \<open>getAll\<close> (node-fetch v1), else \<open>raw\<close> (node-fetch v2), else only \<open>get\<close>.
  \<open>get\<close> and \<open>getAll\<close> look a name up without regard to case; the object that \<open>raw\<close>
  returns is read by the exact key, and \<open>rawAt\<close> is \<open>None\<close> where it has no such key.
\<close>

datatype headers_api = NodeFetchV1 | NodeFetchV2 | WhatWG

record response =
  url :: string
  status :: int
  rheaders :: "(string \<times> string) list"
  api :: headers_api
  redirected :: bool
  rbody :: string

fun joinValues :: "string list \<Rightarrow> string" where
  "joinValues [] = []"
| "joinValues [v] = v"
| "joinValues (v # vs) = v @ '', '' @ joinValues vs"

definition getAll :: "(string \<times> string) list \<Rightarrow> string \<Rightarrow> string list" where
  "getAll hs name = map snd (filter (\<lambda>(k, v). toLowerCase k = toLowerCase name) hs)"

definition get :: "(string \<times> string) list \<Rightarrow> string \<Rightarrow> string option" where
  "get hs name = (case getAll hs name of [] \<Rightarrow> None | vs \<Rightarrow> Some (joinValues vs))"

definition rawAt :: "(string \<times> string) list \<Rightarrow> string \<Rightarrow> string list option" where
  "rawAt hs key =
     (case map snd (filter (\<lambda>(k, v). k = key) hs) of [] \<Rightarrow> None | vs \<Rightarrow> Some vs)"

text \<open>
  The collaborators: the transport, the cookie jar (both with effects on an outside
  world \<open>'w\<close>), \<open>splitCookiesString\<close> of set-cookie-parser, and the platform's \<open>URL\<close>
  class: \<open>hostname u\<close> is \<open>new URL(u).hostname\<close> and \<open>resolve l b\<close> is
  \<open>new URL(l, b).toString()\<close>, \<open>None\<close> where the constructor throws.
\<close>

record 'w env =
  fetch :: "input \<Rightarrow> init \<Rightarrow> store \<Rightarrow> 'w \<Rightarrow> (error + response) \<times> 'w"
  getCookieString :: "string \<Rightarrow> 'w \<Rightarrow> (error + string) \<times> 'w"
  setCookie :: "string \<Rightarrow> string \<Rightarrow> bool \<Rightarrow> 'w \<Rightarrow> (error + unit) \<times> 'w"
  ignoreError :: bool
  splitCookiesString :: "string \<Rightarrow> string list"
  hostname :: "string \<Rightarrow> string option"
  resolve :: "string \<Rightarrow> string \<Rightarrow> string option"

type_synonym 'w state = "store \<times> 'w"

type_synonym 'w fetchImpl = "input \<Rightarrow> init \<Rightarrow> 'w state \<Rightarrow> (error + response) \<times> 'w state"

section \<open>The source functions\<close>

text \<open>
  \<open>isDomainOrSubdomain\<close> (lines 25 to 30). \<open>new URL(original)\<close> is evaluated first; either
  constructor may throw, which is the result \<open>None\<close>. \<open>endsWith\<close> is \<^const>\<open>suffix\<close>.
\<close>

definition isDomainOrSubdomain :: "'w env \<Rightarrow> string \<Rightarrow> string \<Rightarrow> bool option" where
  "isDomainOrSubdomain env destination original =
     (case hostname env original of
        None \<Rightarrow> None
      | Some orig \<Rightarrow>
          (case hostname env destination of
             None \<Rightarrow> None
           | Some dest \<Rightarrow> Some (orig = dest \<or> suffix (''.'' @ dest) orig)))"

text \<open>
  The policy set and \<open>parseReferrerPolicy\<close> (lines 33 to 58); the loop over the tokens is a
  left fold that carries \<open>policy\<close>.
\<close>

definition referrerPolicy_set :: "string set" where
  "referrerPolicy_set =
     {'''', ''no-referrer'', ''no-referrer-when-downgrade'', ''same-origin'', ''origin'',
      ''strict-origin'', ''origin-when-cross-origin'', ''strict-origin-when-cross-origin'',
      ''unsafe-url''}"

definition parseReferrerPolicy :: "string \<Rightarrow> string" where
  "parseReferrerPolicy policyHeader =
     (let policyTokens = splitPolicy policyHeader
      in foldl (\<lambda>policy token.
                  if token \<noteq> '''' \<and> token \<in> referrerPolicy_set then token else policy)
           '''' policyTokens)"

text \<open>
  The header deletion strategies (lines 60 to 87). \<open>callDeleteMethod\<close> is the \<open>delete\<close>
  method of \<open>Headers\<close>, which compares names without regard to case; \<open>deleteFromObject\<close>
  deletes, in place, every own key whose lower-case form is the name: a property of a
  plain object, and of an array the element at an index whose decimal notation is the
  name, which leaves a hole. \<open>identifyDeleteHeader\<close> selects \<open>callDeleteMethod\<close> only for
  an object that has a \<open>delete\<close> function, which an array has not, so an array of pairs
  gets \<open>deleteFromObject\<close>. \<open>callDeleteMethod\<close> is never called on another shape and
  leaves it as it is.
\<close>

definition doNothing :: "init \<Rightarrow> string \<Rightarrow> store \<Rightarrow> store" where
  "doNothing i name \<sigma> = \<sigma>"

definition callDeleteMethod :: "init \<Rightarrow> string \<Rightarrow> store \<Rightarrow> store" where
  "callDeleteMethod i name \<sigma> =
     (case headers i of
        None \<Rightarrow> \<sigma>
      | Some r \<Rightarrow>
          (case lookup \<sigma> r of
             Some (HeadersObj kv) \<Rightarrow>
               \<sigma>[r := HeadersObj (filter (\<lambda>(k, v). toLowerCase k \<noteq> toLowerCase name) kv)]
           | _ \<Rightarrow> \<sigma>))"

definition deleteFromObject :: "init \<Rightarrow> string \<Rightarrow> store \<Rightarrow> store" where
  "deleteFromObject i name \<sigma> =
     (case headers i of
        None \<Rightarrow> \<sigma>
      | Some r \<Rightarrow>
          (case lookup \<sigma> r of
             Some (PlainObj kv) \<Rightarrow>
               \<sigma>[r := PlainObj (filter (\<lambda>(key, v). toLowerCase key \<noteq> name) kv)]
           | Some (PairArray es) \<Rightarrow>
               \<sigma>[r := PairArray (map (\<lambda>(n, e). if toLowerCase (decimal n) = name then None
                                               else e)
                                    (indexed es))]
           | _ \<Rightarrow> \<sigma>))"

definition identifyDeleteHeader :: "init \<Rightarrow> store \<Rightarrow> (init \<Rightarrow> string \<Rightarrow> store \<Rightarrow> store)" where
  "identifyDeleteHeader i \<sigma> =
     (case headers i of
        None \<Rightarrow> doNothing
      | Some r \<Rightarrow>
          (case lookup \<sigma> r of
             Some (HeadersObj kv) \<Rightarrow> callDeleteMethod
           | _ \<Rightarrow> deleteFromObject))"

text \<open>\<open>redirectStatus\<close> and \<open>isRedirect\<close> (lines 90 to 94).\<close>

definition isRedirect :: "int \<Rightarrow> bool" where
  "isRedirect s = (s \<in> {301, 302, 303, 307, 308})"

text \<open>
  \<open>handleRedirect\<close> (lines 97 to 158), with the statements in the order of the source.
  The deletions of the sensitive headers come before the body check, so a failure of that
  check leaves them done. \<open>headers.has\<close> followed by \<open>headers.get\<close> on the same name is one
  case distinction on \<open>get\<close>. The last statement calls \<open>fetchImpl\<close>, which the dispatcher
  instantiates with itself.
\<close>

definition handleRedirect ::
  "'w env \<Rightarrow> 'w fetchImpl \<Rightarrow> init \<Rightarrow> response \<Rightarrow> 'w state \<Rightarrow> (error + response) \<times> 'w state"
where
  "handleRedirect env fetchImpl i response st =
     (let mode = (case redirect i of None \<Rightarrow> ''follow'' | Some m \<Rightarrow> m) in
      if mode = ''error'' then (Inl (RedirectNotAllowed (url response)), st)
      else if mode = ''manual'' then (Inr response, st)
      else if mode \<noteq> ''follow'' then (Inl (InvalidRedirectOption mode), st)
      else
        (case get (rheaders response) ''location'' of
           None \<Rightarrow> (Inr response, st)
         | Some locationUrl \<Rightarrow>
             (let requestUrl = url response in
              case resolve env locationUrl requestUrl of
                None \<Rightarrow> (Inl InvalidURL, st)
              | Some redirectUrl \<Rightarrow>
                  (let count = (case redirectCount i of None \<Rightarrow> 0 | Some c \<Rightarrow> c);
                       limit = (case maxRedirect i of None \<Rightarrow> 20 | Some m \<Rightarrow> m)
                   in
                   if count \<ge> limit then (Inl (MaxRedirectReached limit requestUrl), st)
                   else
                     (let i1 = i\<lparr>redirectCount := Some (count + 1)\<rparr>;
                          deleteHeader = identifyDeleteHeader i1 (fst st)
                      in
                      case isDomainOrSubdomain env requestUrl redirectUrl of
                        None \<Rightarrow> (Inl InvalidURL, st)
                      | Some covered \<Rightarrow>
                          (let \<sigma>1 = (if \<not> covered
                                     then foldl (\<lambda>\<sigma> name. deleteHeader i1 name \<sigma>) (fst st)
                                            [''authorization'', ''www-authenticate'',
                                             ''cookie'', ''cookie2'']
                                     else fst st)
                           in
                           if status response \<noteq> 303 \<and>
                              (case body i1 of
                                 None \<Rightarrow> False
                               | Some b \<Rightarrow> hasPipe b \<or> hasPipeTo b)
                           then (Inl StreamBodyRedirect, (\<sigma>1, snd st))
                           else
                             (let (i2, \<sigma>2) =
                                    (if status response = 303 \<or>
                                        ((status response = 301 \<or> status response = 302) \<and>
                                         httpMethod i1 = Some ''POST'')
                                     then (i1\<lparr>httpMethod := Some ''GET'', body := None\<rparr>,
                                           deleteHeader i1 ''content-length'' \<sigma>1)
                                     else (i1, \<sigma>1));
                                  i3 = (case get (rheaders response) ''referrer-policy'' of
                                          None \<Rightarrow> i2
                                        | Some p \<Rightarrow>
                                            i2\<lparr>referrerPolicy := Some (parseReferrerPolicy p)\<rparr>)
                              in fetchImpl (UrlString redirectUrl) i3 (\<sigma>2, snd st))))))))"

text \<open>
  \<open>h && typeof h.append === 'function'\<close>, for a reference \<open>h\<close> that may be absent: the
  reference and the entries of the \<open>Headers\<close> instance it points to. The headers of the
  request target are those of a \<open>Request\<close> object; a URL string has none.
\<close>

definition appendable :: "store \<Rightarrow> nat option \<Rightarrow> (nat \<times> (string \<times> string) list) option" where
  "appendable \<sigma> h =
     (case h of
        None \<Rightarrow> None
      | Some r \<Rightarrow> (case lookup \<sigma> r of Some (HeadersObj kv) \<Rightarrow> Some (r, kv) | _ \<Rightarrow> None))"

definition targetHeaders :: "input \<Rightarrow> nat option" where
  "targetHeaders inp = (case inp of UrlString u \<Rightarrow> None | RequestObj u r \<Rightarrow> Some r)"

text \<open>
  The properties that the spread \<open>{ ...init.headers }\<close> copies: those of a plain object,
  those of an array (under its indices), none for \<open>undefined\<close> and none for a \<open>Headers\<close>
  instance, which has no own enumerable properties.
\<close>

definition spread :: "store \<Rightarrow> nat option \<Rightarrow> (string \<times> string) list" where
  "spread \<sigma> h =
     (case h of
        None \<Rightarrow> []
      | Some r \<Rightarrow>
          (case lookup \<sigma> r of
             Some (PlainObj kv) \<Rightarrow> kv
           | Some (PairArray es) \<Rightarrow> properties es
           | _ \<Rightarrow> []))"

text \<open>
  \<open>addCookiesToRequest\<close> (lines 160 to 177). The two \<open>append\<close> calls change a shared
  \<open>Headers\<close> instance; the last branch creates a new plain object and a new record.
\<close>

definition addCookiesToRequest :: "input \<Rightarrow> init \<Rightarrow> string \<Rightarrow> store \<Rightarrow> init \<times> store" where
  "addCookiesToRequest inp i cookie \<sigma> =
     (if cookie = '''' then (i, \<sigma>)
      else
        (case appendable \<sigma> (targetHeaders inp) of
           Some (r, kv) \<Rightarrow> (i, \<sigma>[r := HeadersObj (kv @ [(''cookie'', cookie)])])
         | None \<Rightarrow>
             (case appendable \<sigma> (headers i) of
                Some (r, kv) \<Rightarrow> (i, \<sigma>[r := HeadersObj (kv @ [(''cookie'', cookie)])])
              | None \<Rightarrow>
                  (let (r, \<sigma>') =
                         alloc \<sigma> (PlainObj (AList.update ''cookie'' cookie
                                              (spread \<sigma> (headers i))))
                   in (i\<lparr>headers := Some r\<rparr>, \<sigma>')))))"

text \<open>\<open>getCookiesFromResponse\<close> (lines 179 to 206).\<close>

definition getCookiesFromResponse :: "'w env \<Rightarrow> response \<Rightarrow> string list" where
  "getCookiesFromResponse env response =
     (case api response of
        NodeFetchV1 \<Rightarrow> getAll (rheaders response) ''set-cookie''
      | NodeFetchV2 \<Rightarrow>
          (case rawAt (rheaders response) ''set-cookie'' of
             Some cookies \<Rightarrow> cookies
           | None \<Rightarrow> [])
      | WhatWG \<Rightarrow>
          (case get (rheaders response) ''set-cookie'' of
             Some cookieString \<Rightarrow> splitCookiesString env cookieString
           | None \<Rightarrow> []))"

text \<open>
  \<open>Promise.all(cookies.map(...))\<close>: \<open>setCookie\<close> is called once per cookie, in order,
  and every call runs; the first rejection, if any, is the result.
\<close>

fun storeCookies :: "'w env \<Rightarrow> string list \<Rightarrow> string \<Rightarrow> 'w \<Rightarrow> (error + unit) \<times> 'w" where
  "storeCookies env [] u w = (Inr (), w)"
| "storeCookies env (c # cs) u w =
     (case setCookie env c u (ignoreError env) w of
        (r, w1) \<Rightarrow>
          (case storeCookies env cs u w1 of
             (rs, w2) \<Rightarrow> ((case r of Inl e \<Rightarrow> Inl e | Inr x \<Rightarrow> rs), w2)))"

text \<open>
  \<open>fetchCookieWrapper\<close> (lines 212 to 248). It calls \<open>handleRedirect\<close> with itself as
  \<open>fetchImpl\<close>; the recursion ends because \<open>handleRedirect\<close> calls \<open>fetchImpl\<close> only below the
  limit and with the count raised by one, so that \<open>remaining\<close>, the distance of the count
  from the limit, decreases.
\<close>

definition remaining :: "init \<Rightarrow> nat" where
  "remaining i =
     nat ((case maxRedirect i of None \<Rightarrow> 20 | Some m \<Rightarrow> m) -
          (case redirectCount i of None \<Rightarrow> 0 | Some c \<Rightarrow> c))"

lemma handleRedirect_cong [fundef_cong]:
  assumes "i = i'" "response = response'" "st = st'"
    and "\<And>u j s. remaining j < remaining i' \<Longrightarrow> f u j s = g u j s"
  shows "handleRedirect env f i response st = handleRedirect env g i' response' st'"
  using assms
  by (auto simp: handleRedirect_def Let_def remaining_def split: option.splits prod.splits)

function fetchCookieWrapper ::
  "'w env \<Rightarrow> input \<Rightarrow> init \<Rightarrow> 'w state \<Rightarrow> (error + response) \<times> 'w state"
where
  "fetchCookieWrapper env inp i0 st =
     (let originalInit = i0;
          i1 = i0\<lparr>redirect := Some ''manual''\<rparr>;
          requestUrl = (case inp of UrlString u \<Rightarrow> u | RequestObj u r \<Rightarrow> u)
      in
      case getCookieString env requestUrl (snd st) of
        (Inl e, w1) \<Rightarrow> (Inl e, (fst st, w1))
      | (Inr cookie, w1) \<Rightarrow>
          (case addCookiesToRequest inp i1 cookie (fst st) of
             (i2, \<sigma>2) \<Rightarrow>
               (case fetch env inp i2 \<sigma>2 w1 of
                  (Inl e, w2) \<Rightarrow> (Inl e, (\<sigma>2, w2))
                | (Inr response, w2) \<Rightarrow>
                    (let cookies = getCookiesFromResponse env response in
                     case storeCookies env cookies (url response) w2 of
                       (Inl e, w3) \<Rightarrow> (Inl e, (\<sigma>2, w3))
                     | (Inr x, w3) \<Rightarrow>
                         (let response' =
                                (if (case redirectCount i2 of None \<Rightarrow> 0 | Some c \<Rightarrow> c) > 0
                                 then response\<lparr>redirected := True\<rparr> else response)
                          in
                          if \<not> isRedirect (status response') then (Inr response', (\<sigma>2, w3))
                          else handleRedirect env (\<lambda>u j s. fetchCookieWrapper env u j s)
                                 originalInit response' (\<sigma>2, w3))))))"
  by pat_completeness auto
termination
  by (relation "measure (\<lambda>(env, inp, i, st). remaining i)") auto

declare fetchCookieWrapper.simps [simp del]

section \<open>Definitions used to state the properties\<close>

text \<open>
  The reading of the referrer-policy rule that takes the last token of the split that is
  listed in the policy set, the empty token included; \<open>parseReferrerPolicy\<close> is compared
  with it below.
\<close>

definition lastListedToken :: "string \<Rightarrow> string" where
  "lastListedToken policyHeader =
     (case filter (\<lambda>t. t \<in> referrerPolicy_set) (splitPolicy policyHeader) of
        [] \<Rightarrow> ''''
      | ts \<Rightarrow> last ts)"

text \<open>
  \<open>init.redirectCount ?? 0\<close> and \<open>init.maxRedirect ?? 20\<close>, and the header entries that a
  record presents through its reference into the store.
\<close>

definition redirectCountOf :: "init \<Rightarrow> int" where
  "redirectCountOf i = (case redirectCount i of None \<Rightarrow> 0 | Some c \<Rightarrow> c)"

definition maxRedirectOf :: "init \<Rightarrow> int" where
  "maxRedirectOf i = (case maxRedirect i of None \<Rightarrow> 20 | Some m \<Rightarrow> m)"

definition entries :: "store \<Rightarrow> init \<Rightarrow> (string \<times> string) list" where
  "entries \<sigma> i =
     (case headers i of
        None \<Rightarrow> []
      | Some r \<Rightarrow>
          (case lookup \<sigma> r of
             None \<Rightarrow> []
           | Some (HeadersObj kv) \<Rightarrow> kv
           | Some (PlainObj kv) \<Rightarrow> kv
           | Some (PairArray es) \<Rightarrow> concat (map (\<lambda>e. case e of None \<Rightarrow> [] | Some p \<Rightarrow> [p]) es)))"

text \<open>The headers of the record are an array of pairs.\<close>

definition arrayHeaders :: "store \<Rightarrow> init \<Rightarrow> bool" where
  "arrayHeaders \<sigma> i =
     (case headers i of
        None \<Rightarrow> False
      | Some r \<Rightarrow> (case lookup \<sigma> r of Some (PairArray es) \<Rightarrow> True | _ \<Rightarrow> False))"

definition sensitiveNames :: "string list" where
  "sensitiveNames = [''authorization'', ''www-authenticate'', ''cookie'', ''cookie2'']"

text \<open>The entries whose name, in lower case, is one of the given names.\<close>

definition named :: "string list \<Rightarrow> (string \<times> string) list \<Rightarrow> (string \<times> string) list" where
  "named names kv = filter (\<lambda>(k, v). toLowerCase k \<in> set names) kv"

text \<open>
  The relation \<open>covered\<close> of the specification, on the host name of the request URL and
  the host name of the redirect URL.
\<close>

definition covered :: "string \<Rightarrow> string \<Rightarrow> bool" where
  "covered requestHost redirectHost =
     (redirectHost = requestHost \<or> suffix (''.'' @ requestHost) redirectHost)"

text \<open>
  The conditions under which \<open>handleRedirect\<close> gets past the mode dispatch, the location
  check, the resolution of the target and the ceiling check, and both URLs have a host
  name: the mode is \<open>follow\<close> (given or by default), the response has a \<open>Location\<close> that
  resolves to \<open>redirectUrl\<close>, and the count is below the limit.
\<close>

definition reachesStripping ::
  "'w env \<Rightarrow> init \<Rightarrow> response \<Rightarrow> string \<Rightarrow> string \<Rightarrow> string \<Rightarrow> bool" where
  "reachesStripping env i resp redirectUrl requestHost redirectHost =
     ((redirect i = None \<or> redirect i = Some ''follow'') \<and>
      (case get (rheaders resp) ''location'' of
         None \<Rightarrow> False
       | Some l \<Rightarrow> resolve env l (url resp) = Some redirectUrl) \<and>
      redirectCountOf i < maxRedirectOf i \<and>
      hostname env (url resp) = Some requestHost \<and>
      hostname env redirectUrl = Some redirectHost)"

text \<open>The body is present and has a \<open>pipe\<close> or a \<open>pipeTo\<close> function.\<close>

definition streamingBody :: "init \<Rightarrow> bool" where
  "streamingBody i = (case body i of None \<Rightarrow> False | Some b \<Rightarrow> hasPipe b \<or> hasPipeTo b)"

text \<open>The condition of the method and body downgrade (line 147).\<close>

definition downgrades :: "init \<Rightarrow> response \<Rightarrow> bool" where
  "downgrades i resp =
     (status resp = 303 \<or>
      ((status resp = 301 \<or> status resp = 302) \<and> httpMethod i = Some ''POST''))"

section \<open>Example values\<close>

text \<open>
  A request to \<open>https://a.example.com/\<close> that is answered with a 302 redirect to
  \<open>https://example.com/x\<close>, which answers 200. The URL functions of the example
  environment are the platform's on the URLs that occur.
\<close>

definition exampleRedirect :: response where
  "exampleRedirect =
     \<lparr>url = ''https://a.example.com/'', status = 302,
      rheaders = [(''Location'', ''https://example.com/x'')], api = WhatWG,
      redirected = False, rbody = ''''\<rparr>"

definition exampleFinal :: response where
  "exampleFinal =
     \<lparr>url = ''https://example.com/x'', status = 200,
      rheaders = [(''Location'', ''https://example.com/y'')], api = WhatWG,
      redirected = False, rbody = ''ok''\<rparr>"

definition exampleEnv :: "nat env" where
  "exampleEnv =
     \<lparr>fetch = (\<lambda>inp i \<sigma> w.
         (Inr (if inp = UrlString ''https://a.example.com/'' then exampleRedirect
               else exampleFinal), w + 1)),
      getCookieString = (\<lambda>u w. (Inr '''', w)),
      setCookie = (\<lambda>c u b w. (Inr (), w)),
      ignoreError = True,
      splitCookiesString = (\<lambda>s. [s]),
      hostname = map_of [(''https://a.example.com/'', ''a.example.com''),
                         (''https://example.com/x'', ''example.com''),
                         (''https://sub.a.example.com/'', ''sub.a.example.com'')],
      resolve = (\<lambda>l b. if l \<in> {''https://example.com/x'', ''https://sub.a.example.com/'',
                                  ''https://a.example.com/''}
                         then Some l else None)\<rparr>"

definition exampleStore :: store where
  "exampleStore =
     [PlainObj [(''Authorization'', ''Bearer t''), (''Content-Length'', ''3''),
                (''Accept'', ''text/html'')],
      HeadersObj [(''cookie'', ''id=1''), (''accept'', ''text/html'')]]"

text \<open>The headers of the example as an array of pairs.\<close>

definition arrayStore :: store where
  "arrayStore =
     [PairArray [Some (''Authorization'', ''Bearer t''), Some (''Content-Length'', ''3'')]]"

definition exampleInit :: init where
  "exampleInit =
     \<lparr>httpMethod = Some ''POST'', headers = Some 0,
      body = Some \<lparr>hasPipe = False, hasPipeTo = False, content = ''a=1''\<rparr>,
      redirect = None, referrerPolicy = None, maxRedirect = None, redirectCount = None\<rparr>"

definition policyRedirect :: response where
  "policyRedirect =
     exampleRedirect\<lparr>rheaders := [(''Location'', ''https://example.com/x''),
                                  (''Referrer-Policy'', ''origin, bogus same-origin,'')]\<rparr>"

definition stubFetchImpl :: "nat fetchImpl" where
  "stubFetchImpl inp i st = (Inr exampleFinal, st)"

text \<open>A record whose body is a Node.js stream.\<close>

definition streamInit :: init where
  "streamInit =
     \<lparr>httpMethod = Some ''PUT'', headers = None,
      body = Some \<lparr>hasPipe = True, hasPipeTo = False, content = ''''\<rparr>,
      redirect = Some ''follow'', referrerPolicy = None, maxRedirect = None,
      redirectCount = None\<rparr>"

text \<open>
  The same environment with a transport that also records every call it receives: the
  record it was given and what it answered. The recording is kept beside the world.
\<close>

definition logged :: "'w env \<Rightarrow> ('w \<times> (init \<times> (error + response)) list) env" where
  "logged env =
     \<lparr>fetch = (\<lambda>inp i \<sigma> (w, calls).
         case fetch env inp i \<sigma> w of (r, w') \<Rightarrow> (r, (w', calls @ [(i, r)]))),
      getCookieString = (\<lambda>u (w, calls).
         case getCookieString env u w of (r, w') \<Rightarrow> (r, (w', calls))),
      setCookie = (\<lambda>c u b (w, calls).
         case setCookie env c u b w of (r, w') \<Rightarrow> (r, (w', calls))),
      ignoreError = ignoreError env,
      splitCookiesString = splitCookiesString env,
      hostname = hostname env,
      resolve = resolve env\<rparr>"

text \<open>
  A transport that answers every request with a redirect that can be followed: a redirect
  status, and a \<open>Location\<close> that resolves against the response URL, both URLs with a
  host name. A cookie jar whose calls all succeed.
\<close>

definition alwaysRedirects :: "'w env \<Rightarrow> bool" where
  "alwaysRedirects env =
     (\<forall>inp i \<sigma> w.
        case fetch env inp i \<sigma> w of
          (Inl e, w') \<Rightarrow> False
        | (Inr r, w') \<Rightarrow>
            isRedirect (status r) \<and>
            (case get (rheaders r) ''location'' of
               None \<Rightarrow> False
             | Some l \<Rightarrow>
                 (case resolve env l (url r) of
                    None \<Rightarrow> False
                  | Some ru \<Rightarrow> hostname env ru \<noteq> None \<and> hostname env (url r) \<noteq> None)))"

definition jarSucceeds :: "'w env \<Rightarrow> bool" where
  "jarSucceeds env =
     ((\<forall>u w. \<exists>c w'. getCookieString env u w = (Inr c, w')) \<and>
      (\<forall>c u b w. \<exists>w'. setCookie env c u b w = (Inr (), w')))"

text \<open>A server that redirects \<open>https://example.com/x\<close> to itself, for ever.\<close>

definition loopResponse :: response where
  "loopResponse =
     \<lparr>url = ''https://example.com/x'', status = 302,
      rheaders = [(''Location'', ''https://example.com/x'')], api = WhatWG,
      redirected = False, rbody = ''''\<rparr>"

definition loopEnv :: "nat env" where
  "loopEnv = exampleEnv\<lparr>fetch := (\<lambda>inp i \<sigma> w. (Inr loopResponse, w + 1))\<rparr>"

section \<open>Referrer-policy parsing\<close>

lemma foldl_keep_last:
  "foldl (\<lambda>acc t. if P t then t else acc) a ts =
     (case filter P ts of [] \<Rightarrow> a | us \<Rightarrow> last us)"
proof (induction ts arbitrary: a)
  case Nil
  show ?case by simp
next
  case (Cons t ts)
  show ?case
    by (cases "filter P ts") (simp_all add: Cons.IH)
qed

lemma parseReferrerPolicy_last_valid:
  "parseReferrerPolicy h =
     (case filter (\<lambda>t. t \<noteq> '''' \<and> t \<in> referrerPolicy_set) (splitPolicy h) of
        [] \<Rightarrow> ''''
      | ts \<Rightarrow> last ts)"
  unfolding parseReferrerPolicy_def Let_def by (rule foldl_keep_last)

section \<open>The redirect step\<close>

lemma toLowerCase_names [simp]:
  "toLowerCase ''authorization'' = ''authorization''"
  "toLowerCase ''www-authenticate'' = ''www-authenticate''"
  "toLowerCase ''cookie'' = ''cookie''"
  "toLowerCase ''cookie2'' = ''cookie2''"
  "toLowerCase ''content-length'' = ''content-length''"
  by (simp_all add: toLowerCase_def toLowerCase_char_def)

lemma lookup_update:
  "lookup (\<sigma>[r := h]) r' = (if r' = r \<and> r < length \<sigma> then Some h else lookup \<sigma> r')"
  by (simp add: lookup_def nth_list_update)

lemma lookup_self: "lookup \<sigma> r = Some h \<Longrightarrow> \<sigma>[r := h] = \<sigma>"
  by (auto simp: lookup_def split: if_splits)

lemma lookup_length: "lookup \<sigma> r = Some h \<Longrightarrow> r < length \<sigma>"
  by (auto simp: lookup_def split: if_splits)

lemma callDeleteMethod_update:
  "headers j = Some r \<Longrightarrow> r < length \<sigma> \<Longrightarrow>
   callDeleteMethod j name (\<sigma>[r := HeadersObj kv]) =
     \<sigma>[r := HeadersObj (filter (\<lambda>(k, v). toLowerCase k \<noteq> toLowerCase name) kv)]"
  by (simp add: callDeleteMethod_def lookup_update)

lemma deleteFromObject_update:
  "headers j = Some r \<Longrightarrow> r < length \<sigma> \<Longrightarrow>
   deleteFromObject j name (\<sigma>[r := PlainObj kv]) =
     \<sigma>[r := PlainObj (filter (\<lambda>(key, v). toLowerCase key \<noteq> name) kv)]"
  by (simp add: deleteFromObject_def lookup_update)

lemma filter_twice:
  "filter P (filter Q xs) = filter (\<lambda>x. Q x \<and> P x) xs"
  by simp

lemma decimal_digits: "set (decimal n) \<subseteq> set ''0123456789''"
proof (induction n rule: decimal.induct)
  case (1 n)
  show ?case
  proof (cases "n < 10")
    case True
    then have "''0123456789'' ! n \<in> set ''0123456789''"
      by (intro nth_mem) simp
    then show ?thesis
      using True by (subst decimal.simps) simp
  next
    case False
    have "n mod 10 < length ''0123456789''" by simp
    then have "''0123456789'' ! (n mod 10) \<in> set ''0123456789''"
      by (rule nth_mem)
    then show ?thesis
      using False 1 by (subst decimal.simps) simp
  qed
qed

lemma toLowerCase_digits: "\<forall>c \<in> set ''0123456789''. toLowerCase_char c = c"
  by (simp add: toLowerCase_char_def)

lemma toLowerCase_digit: "c \<in> set ''0123456789'' \<Longrightarrow> toLowerCase_char c = c"
  using toLowerCase_digits by (rule bspec)

text \<open>A header name with a character that is no digit is the key of no array index.\<close>

lemma name_not_index:
  assumes "c \<in> set name" and "c \<notin> set ''0123456789''"
  shows "toLowerCase (decimal n) \<noteq> name"
proof
  assume "toLowerCase (decimal n) = name"
  with assms(1) obtain d where d: "d \<in> set (decimal n)" and c: "c = toLowerCase_char d"
    by (auto simp: toLowerCase_def)
  from d have "d \<in> set ''0123456789''"
    using decimal_digits by blast
  then have "c \<in> set ''0123456789''"
    using c toLowerCase_digit by simp
  with assms(2) show False by simp
qed

lemma header_names_not_indices:
  "toLowerCase (decimal n) \<noteq> ''authorization''"
  "toLowerCase (decimal n) \<noteq> ''www-authenticate''"
  "toLowerCase (decimal n) \<noteq> ''cookie''"
  "toLowerCase (decimal n) \<noteq> ''cookie2''"
  "toLowerCase (decimal n) \<noteq> ''content-length''"
  apply (rule name_not_index[where c = "CHR ''a''"]; simp)
  apply (rule name_not_index[where c = "CHR ''w''"]; simp)
  apply (rule name_not_index[where c = "CHR ''c''"]; simp)+
  done

lemma indexed_unchanged:
  "map (\<lambda>(n, e). if P n then None else e) (indexed es) = es" if "\<And>n. \<not> P n"
proof -
  have "map (\<lambda>(n, e). if P n then None else e) (indexed es) = map snd (indexed es)"
    using that by (intro map_cong) auto
  then show ?thesis
    by (simp add: indexed_def)
qed

lemma deleteFromObject_array:
  assumes "\<And>n. toLowerCase (decimal n) \<noteq> name"
    and "lookup \<sigma> r = Some (PairArray es)" and "headers j = Some r"
  shows "deleteFromObject j name \<sigma> = \<sigma>"
  using assms(2,3) indexed_unchanged[of "\<lambda>n. toLowerCase (decimal n) = name" es, OF assms(1)]
  by (simp add: deleteFromObject_def lookup_self)

lemma handleRedirect_hands_over:
  assumes reach: "reachesStripping env i resp ru hq ht"
    and replay: "status resp = 303 \<or> \<not> streamingBody i"
  obtains i' \<sigma>' where
    "\<And>f. handleRedirect env f i resp (\<sigma>, w) = f (UrlString ru) i' (\<sigma>', w)"
    "headers i' = headers i"
    "redirectCount i' = Some (redirectCountOf i + 1)"
    "maxRedirect i' = maxRedirect i"
    "redirect i' = redirect i"
    "httpMethod i' = (if downgrades i resp then Some ''GET'' else httpMethod i)"
    "body i' = (if downgrades i resp then None else body i)"
    "referrerPolicy i' =
       (case get (rheaders resp) ''referrer-policy'' of
          None \<Rightarrow> referrerPolicy i
        | Some p \<Rightarrow> Some (parseReferrerPolicy p))"
    "entries \<sigma>' i' =
       (if arrayHeaders \<sigma> i then entries \<sigma> i
        else filter (\<lambda>(k, v). (covered hq ht \<or> toLowerCase k \<notin> set sensitiveNames) \<and>
                             (\<not> downgrades i resp \<or> toLowerCase k \<noteq> ''content-length''))
               (entries \<sigma> i))"
    "length \<sigma>' = length \<sigma>"
    "\<And>r. headers i \<noteq> Some r \<Longrightarrow> lookup \<sigma>' r = lookup \<sigma> r"
    "arrayHeaders \<sigma> i \<Longrightarrow> \<sigma>' = \<sigma>"
proof -
  define i1 where "i1 = i\<lparr>redirectCount := Some (redirectCountOf i + 1)\<rparr>"
  define del where "del = identifyDeleteHeader i1 \<sigma>"
  define \<sigma>1 where "\<sigma>1 = (if \<not> covered hq ht
       then foldl (\<lambda>s name. del i1 name s) \<sigma> sensitiveNames else \<sigma>)"
  define i2 where "i2 = (if downgrades i resp then i1\<lparr>httpMethod := Some ''GET'', body := None\<rparr> else i1)"
  define \<sigma>2 where "\<sigma>2 = (if downgrades i resp then del i1 ''content-length'' \<sigma>1 else \<sigma>1)"
  define i3 where "i3 = (case get (rheaders resp) ''referrer-policy'' of
       None \<Rightarrow> i2 | Some p \<Rightarrow> i2\<lparr>referrerPolicy := Some (parseReferrerPolicy p)\<rparr>)"
  from reach have mode: "(case redirect i of None \<Rightarrow> ''follow'' | Some m \<Rightarrow> m) = ''follow''"
    by (auto simp: reachesStripping_def)
  from reach obtain l where loc: "get (rheaders resp) ''location'' = Some l"
    and res: "resolve env l (url resp) = Some ru"
    by (auto simp: reachesStripping_def split: option.splits)
  from reach have cnt: "\<not> (case maxRedirect i of None \<Rightarrow> 20 | Some m \<Rightarrow> m)
      \<le> redirectCountOf i"
    by (simp add: reachesStripping_def maxRedirectOf_def)
  from reach have dom: "isDomainOrSubdomain env (url resp) ru = Some (covered hq ht)"
    by (simp add: reachesStripping_def isDomainOrSubdomain_def covered_def)
  from replay have str: "\<not> (status resp \<noteq> 303 \<and>
      (case body i1 of None \<Rightarrow> False | Some b \<Rightarrow> hasPipe b \<or> hasPipeTo b))"
    by (auto simp: streamingBody_def i1_def)
  have pair: "(if downgrades i resp
       then (i1\<lparr>httpMethod := Some ''GET'', body := None\<rparr>, del i1 ''content-length'' \<sigma>1)
       else (i1, \<sigma>1)) = (i2, \<sigma>2)"
    by (simp add: i2_def \<sigma>2_def)
  have down: "(status resp = 303 \<or>
      ((status resp = 301 \<or> status resp = 302) \<and> httpMethod i1 = Some ''POST'')) =
      downgrades i resp"
    by (simp add: downgrades_def i1_def)
  have call: "handleRedirect env f i resp (\<sigma>, w) = f (UrlString ru) i3 (\<sigma>2, w)" for f
    unfolding handleRedirect_def Let_def mode
    apply (simp only: loc res option.case fst_conv snd_conv
        redirectCountOf_def[symmetric] i1_def[symmetric] cnt if_False)
    apply (simp only: dom option.case del_def[symmetric] str if_False down
        sensitiveNames_def[symmetric] \<sigma>1_def[symmetric] pair prod.case i3_def[symmetric])
    apply simp
    done
  have fields:
    "headers i3 = headers i"
    "redirectCount i3 = Some (redirectCountOf i + 1)"
    "maxRedirect i3 = maxRedirect i"
    "redirect i3 = redirect i"
    "httpMethod i3 = (if downgrades i resp then Some ''GET'' else httpMethod i)"
    "body i3 = (if downgrades i resp then None else body i)"
    "referrerPolicy i3 =
       (case get (rheaders resp) ''referrer-policy'' of
          None \<Rightarrow> referrerPolicy i
        | Some p \<Rightarrow> Some (parseReferrerPolicy p))"
    by (simp_all add: i3_def i2_def i1_def split: option.splits)
  have h1: "headers i1 = headers i" by (simp add: i1_def)
  have store:
    "entries \<sigma>2 i3 =
       (if arrayHeaders \<sigma> i then entries \<sigma> i
        else filter (\<lambda>(k, v). (covered hq ht \<or> toLowerCase k \<notin> set sensitiveNames) \<and>
                             (\<not> downgrades i resp \<or> toLowerCase k \<noteq> ''content-length''))
               (entries \<sigma> i)) \<and>
     length \<sigma>2 = length \<sigma> \<and>
     (\<forall>r. headers i \<noteq> Some r \<longrightarrow> lookup \<sigma>2 r = lookup \<sigma> r) \<and>
     (arrayHeaders \<sigma> i \<longrightarrow> \<sigma>2 = \<sigma>)"
  proof (cases "headers i")
    case None
    then have "del = doNothing"
      by (simp add: del_def identifyDeleteHeader_def h1)
    then have "\<sigma>2 = \<sigma>"
      by (simp add: \<sigma>2_def \<sigma>1_def doNothing_def sensitiveNames_def)
    then show ?thesis using None
      by (simp add: entries_def arrayHeaders_def fields)
  next
    case (Some r)
    note ref = this
    show ?thesis
    proof (cases "lookup \<sigma> r")
      case None
      then have d: "del = deleteFromObject"
        using ref by (simp add: del_def identifyDeleteHeader_def h1)
      have "deleteFromObject i1 name \<sigma> = \<sigma>" for name
        using None ref by (simp add: deleteFromObject_def h1)
      then have "\<sigma>2 = \<sigma>"
        by (simp add: \<sigma>2_def \<sigma>1_def d sensitiveNames_def)
      then show ?thesis using None ref
        by (simp add: entries_def arrayHeaders_def fields)
    next
      case (Some h)
      note look = this
      have len: "r < length \<sigma>" using look by (rule lookup_length)
      have r1: "headers i1 = Some r" using ref by (simp add: h1)
      show ?thesis
      proof (cases h)
        case (HeadersObj kv)
        have self: "\<sigma>[r := HeadersObj kv] = \<sigma>"
          using look HeadersObj by (simp add: lookup_self)
        have d: "del = callDeleteMethod"
          using look HeadersObj ref by (simp add: del_def identifyDeleteHeader_def h1)
        have s1: "\<sigma>1 = \<sigma>[r := HeadersObj (filter (\<lambda>(k, v).
              covered hq ht \<or> toLowerCase k \<notin> set sensitiveNames) kv)]"
        proof (cases "covered hq ht")
          case True
          then show ?thesis by (simp add: \<sigma>1_def self)
        next
          case False
          have "foldl (\<lambda>s name. callDeleteMethod i1 name s) (\<sigma>[r := HeadersObj kv])
                  sensitiveNames =
                \<sigma>[r := HeadersObj (filter (\<lambda>(k, v). toLowerCase k \<notin> set sensitiveNames) kv)]"
            unfolding sensitiveNames_def
            by (simp add: callDeleteMethod_update[OF r1 len] del: filter_filter)
               (auto simp: filter_twice intro!: arg_cong[where f="\<lambda>x. \<sigma>[r := HeadersObj x]"] filter_cong)
          then show ?thesis using False by (simp add: \<sigma>1_def d self)
        qed
        have s2: "\<sigma>2 = \<sigma>[r := HeadersObj (filter (\<lambda>(k, v).
              (covered hq ht \<or> toLowerCase k \<notin> set sensitiveNames) \<and>
              (\<not> downgrades i resp \<or> toLowerCase k \<noteq> ''content-length'')) kv)]"
        proof (cases "downgrades i resp")
          case True
          then show ?thesis
            by (simp add: \<sigma>2_def d s1 callDeleteMethod_update[OF r1 len] case_prod_unfold)
        next
          case False
          then show ?thesis by (simp add: \<sigma>2_def s1)
        qed
        show ?thesis
          using len look HeadersObj ref
          by (simp add: s2 entries_def arrayHeaders_def fields lookup_update)
      next
        case (PlainObj kv)
        have self: "\<sigma>[r := PlainObj kv] = \<sigma>"
          using look PlainObj by (simp add: lookup_self)
        have d: "del = deleteFromObject"
          using look PlainObj ref by (simp add: del_def identifyDeleteHeader_def h1)
        have s1: "\<sigma>1 = \<sigma>[r := PlainObj (filter (\<lambda>(k, v).
              covered hq ht \<or> toLowerCase k \<notin> set sensitiveNames) kv)]"
        proof (cases "covered hq ht")
          case True
          then show ?thesis by (simp add: \<sigma>1_def self)
        next
          case False
          have "foldl (\<lambda>s name. deleteFromObject i1 name s) (\<sigma>[r := PlainObj kv])
                  sensitiveNames =
                \<sigma>[r := PlainObj (filter (\<lambda>(k, v). toLowerCase k \<notin> set sensitiveNames) kv)]"
            unfolding sensitiveNames_def
            by (simp add: deleteFromObject_update[OF r1 len] del: filter_filter)
               (auto simp: filter_twice intro!: arg_cong[where f="\<lambda>x. \<sigma>[r := PlainObj x]"] filter_cong)
          then show ?thesis using False by (simp add: \<sigma>1_def d self)
        qed
        have s2: "\<sigma>2 = \<sigma>[r := PlainObj (filter (\<lambda>(k, v).
              (covered hq ht \<or> toLowerCase k \<notin> set sensitiveNames) \<and>
              (\<not> downgrades i resp \<or> toLowerCase k \<noteq> ''content-length'')) kv)]"
        proof (cases "downgrades i resp")
          case True
          then show ?thesis
            by (simp add: \<sigma>2_def d s1 deleteFromObject_update[OF r1 len] case_prod_unfold)
        next
          case False
          then show ?thesis by (simp add: \<sigma>2_def s1)
        qed
        show ?thesis
          using len look PlainObj ref
          by (simp add: s2 entries_def arrayHeaders_def fields lookup_update)
      next
        case (PairArray es)
        have d: "del = deleteFromObject"
          using look PairArray ref by (simp add: del_def identifyDeleteHeader_def h1)
        have keep:
          "deleteFromObject i1 ''authorization'' \<sigma> = \<sigma>"
          "deleteFromObject i1 ''www-authenticate'' \<sigma> = \<sigma>"
          "deleteFromObject i1 ''cookie'' \<sigma> = \<sigma>"
          "deleteFromObject i1 ''cookie2'' \<sigma> = \<sigma>"
          "deleteFromObject i1 ''content-length'' \<sigma> = \<sigma>"
          by (rule deleteFromObject_array[OF _ look[unfolded PairArray] r1],
              rule header_names_not_indices)+
        have "\<sigma>1 = \<sigma>"
          by (simp add: \<sigma>1_def d keep sensitiveNames_def)
        then have "\<sigma>2 = \<sigma>"
          by (simp add: \<sigma>2_def d keep)
        then show ?thesis
          using look PairArray ref
          by (simp add: entries_def arrayHeaders_def fields)
      qed
    qed
  qed
  show thesis
    by (rule that[of i3 \<sigma>2]) (use call fields store in \<open>simp_all\<close>)
qed

section \<open>Stripping of sensitive headers\<close>

lemma named_filter:
  "named names (filter P kv) = filter P (named names kv)"
  by (auto simp: named_def intro: filter_cong)

lemma named_sensitive_after:
  "named sensitiveNames
     (filter (\<lambda>(k, v). (c \<or> toLowerCase k \<notin> set sensitiveNames) \<and>
                      (\<not> d \<or> toLowerCase k \<noteq> ''content-length'')) kv) =
   (if c then named sensitiveNames kv else [])"
  by (auto simp: named_def filter_empty_conv sensitiveNames_def intro!: filter_cong)

lemma named_length_after:
  "named [''content-length'']
     (filter (\<lambda>(k, v). (c \<or> toLowerCase k \<notin> set sensitiveNames) \<and>
                      (\<not> d \<or> toLowerCase k \<noteq> ''content-length'')) kv) =
   (if d then [] else named [''content-length''] kv)"
  by (auto simp: named_def filter_empty_conv sensitiveNames_def intro!: filter_cong)

lemma parent_not_covered: "\<not> covered (s @ ''.'' @ h) h"
proof
  assume "covered (s @ ''.'' @ h) h"
  then have "length (s @ ''.'' @ h) \<le> length h"
    by (auto simp: covered_def dest: suffix_length_le)
  then show False by simp
qed

lemma subdomain_covered: "covered h (s @ ''.'' @ h)"
  by (simp add: covered_def suffix_def)

lemma named_after_hop:
  assumes "es = (if a then kv
       else filter (\<lambda>(k, v). (c \<or> toLowerCase k \<notin> set sensitiveNames) \<and>
                            (\<not> d \<or> toLowerCase k \<noteq> ''content-length'')) kv)"
  shows "named sensitiveNames es = (if c \<or> a then named sensitiveNames kv else [])"
    and "named [''content-length''] es =
           (if d \<and> \<not> a then [] else named [''content-length''] kv)"
proof -
  show "named sensitiveNames es = (if c \<or> a then named sensitiveNames kv else [])"
  proof (cases a)
    case True
    then show ?thesis using assms by simp
  next
    case False
    then have "es = filter (\<lambda>(k, v). (c \<or> toLowerCase k \<notin> set sensitiveNames) \<and>
                            (\<not> d \<or> toLowerCase k \<noteq> ''content-length'')) kv"
      using assms by simp
    then have "named sensitiveNames es = (if c then named sensitiveNames kv else [])"
      by (simp only: named_sensitive_after)
    then show ?thesis using False by simp
  qed
  show "named [''content-length''] es =
           (if d \<and> \<not> a then [] else named [''content-length''] kv)"
  proof (cases a)
    case True
    then show ?thesis using assms by simp
  next
    case False
    then have "es = filter (\<lambda>(k, v). (c \<or> toLowerCase k \<notin> set sensitiveNames) \<and>
                            (\<not> d \<or> toLowerCase k \<noteq> ''content-length'')) kv"
      using assms by simp
    then have "named [''content-length''] es =
        (if d then [] else named [''content-length''] kv)"
      by (simp only: named_length_after)
    then show ?thesis using False by simp
  qed
qed

text \<open>
  What a followed hop does to the sensitive entries: they are all removed when the
  redirect host is not covered and the headers are a \<open>Headers\<close> instance or a plain
  object, and all kept when the host is covered. When the headers are an array of pairs
  they are kept whatever the hosts are.
\<close>

lemma sensitive_entries_after_hop:
  assumes "reachesStripping env i resp ru hq ht"
    and "status resp = 303 \<or> \<not> streamingBody i"
  shows "\<exists>i' \<sigma>'.
      (\<forall>f. handleRedirect env f i resp (\<sigma>, w) = f (UrlString ru) i' (\<sigma>', w)) \<and>
      named sensitiveNames (entries \<sigma>' i') =
        (if covered hq ht \<or> arrayHeaders \<sigma> i then named sensitiveNames (entries \<sigma> i)
         else [])"
proof -
  obtain i' \<sigma>' where
    call: "\<And>f. handleRedirect env f i resp (\<sigma>, w) = f (UrlString ru) i' (\<sigma>', w)"
    and ent: "entries \<sigma>' i' =
       (if arrayHeaders \<sigma> i then entries \<sigma> i
        else filter (\<lambda>(k, v). (covered hq ht \<or> toLowerCase k \<notin> set sensitiveNames) \<and>
                             (\<not> downgrades i resp \<or> toLowerCase k \<noteq> ''content-length''))
               (entries \<sigma> i))"
    by (rule handleRedirect_hands_over[OF assms, where \<sigma>=\<sigma> and w=w]) (rule that)
  have "named sensitiveNames (entries \<sigma>' i') =
      (if covered hq ht \<or> arrayHeaders \<sigma> i then named sensitiveNames (entries \<sigma> i)
       else [])"
    using ent by (rule named_after_hop(1))
  with call show ?thesis by blast
qed

text \<open>
  C1, at a record whose headers are an array of pairs. The request to
  \<open>a.example.com\<close> is redirected to \<open>example.com\<close>, which is not covered; the claim has
  authorization, www-authenticate, cookie and cookie2 removed from the record of the next
  hop, and the code hands on a record that still presents the Authorization entry: the
  key scan of \<open>deleteFromObject\<close> meets the indices of the array and no header name.
\<close>

theorem array_headers_keep_authorization:
  "arrayHeaders arrayStore exampleInit \<and>
   \<not> covered ''a.example.com'' ''example.com'' \<and>
   (\<exists>i'.
      (\<forall>f. handleRedirect exampleEnv f exampleInit exampleRedirect (arrayStore, 0) =
             f (UrlString ''https://example.com/x'') i' (arrayStore, 0)) \<and>
      named sensitiveNames (entries arrayStore i') = [(''Authorization'', ''Bearer t'')])"
proof -
  have r: "reachesStripping exampleEnv exampleInit exampleRedirect ''https://example.com/x''
     ''a.example.com'' ''example.com''"
    by (simp add: reachesStripping_def exampleEnv_def exampleInit_def exampleRedirect_def
          get_def getAll_def toLowerCase_def toLowerCase_char_def redirectCountOf_def
          maxRedirectOf_def)
  have s: "\<not> streamingBody exampleInit"
    by (simp add: streamingBody_def exampleInit_def)
  have a: "arrayHeaders arrayStore exampleInit"
    by (simp add: arrayHeaders_def arrayStore_def exampleInit_def lookup_def)
  have c: "\<not> covered ''a.example.com'' ''example.com''"
    by (simp add: covered_def suffix_def)
  obtain i' \<sigma>' where
    call: "\<And>f. handleRedirect exampleEnv f exampleInit exampleRedirect (arrayStore, 0) =
        f (UrlString ''https://example.com/x'') i' (\<sigma>', 0)"
    and hdr: "headers i' = headers exampleInit"
    and same: "arrayHeaders arrayStore exampleInit \<Longrightarrow> \<sigma>' = arrayStore"
    by (rule handleRedirect_hands_over[OF r disjI2[OF s], where \<sigma>=arrayStore and w=0])
       (rule that)
  have "named sensitiveNames (entries arrayStore i') = [(''Authorization'', ''Bearer t'')]"
    by (simp add: named_def entries_def hdr arrayStore_def exampleInit_def lookup_def
          sensitiveNames_def toLowerCase_def toLowerCase_char_def)
  with call same[OF a] have "\<exists>i'.
      (\<forall>f. handleRedirect exampleEnv f exampleInit exampleRedirect (arrayStore, 0) =
             f (UrlString ''https://example.com/x'') i' (arrayStore, 0)) \<and>
      named sensitiveNames (entries arrayStore i') = [(''Authorization'', ''Bearer t'')]"
    by auto
  with a c show ?thesis by (intro conjI)
qed

section \<open>Body check and downgrade\<close>

lemma handleRedirect_rejects_stream:
  assumes reach: "reachesStripping env i resp ru hq ht"
    and st: "status resp \<noteq> 303" and sb: "streamingBody i"
  shows "\<exists>\<sigma>'. \<forall>f. handleRedirect env f i resp (\<sigma>, w) = (Inl StreamBodyRedirect, (\<sigma>', w))"
proof -
  define i1 where "i1 = i\<lparr>redirectCount := Some (redirectCountOf i + 1)\<rparr>"
  define del where "del = identifyDeleteHeader i1 \<sigma>"
  define \<sigma>1 where "\<sigma>1 = (if \<not> covered hq ht
       then foldl (\<lambda>s name. del i1 name s) \<sigma> sensitiveNames else \<sigma>)"
  from reach have mode: "(case redirect i of None \<Rightarrow> ''follow'' | Some m \<Rightarrow> m) = ''follow''"
    by (auto simp: reachesStripping_def)
  from reach obtain l where loc: "get (rheaders resp) ''location'' = Some l"
    and res: "resolve env l (url resp) = Some ru"
    by (auto simp: reachesStripping_def split: option.splits)
  from reach have cnt: "\<not> (case maxRedirect i of None \<Rightarrow> 20 | Some m \<Rightarrow> m)
      \<le> redirectCountOf i"
    by (simp add: reachesStripping_def maxRedirectOf_def)
  from reach have dom: "isDomainOrSubdomain env (url resp) ru = Some (covered hq ht)"
    by (simp add: reachesStripping_def isDomainOrSubdomain_def covered_def)
  from st sb have str: "(status resp \<noteq> 303 \<and>
      (case body i1 of None \<Rightarrow> False | Some b \<Rightarrow> hasPipe b \<or> hasPipeTo b))"
    by (auto simp: streamingBody_def i1_def)
  have "handleRedirect env f i resp (\<sigma>, w) = (Inl StreamBodyRedirect, (\<sigma>1, w))" for f
    unfolding handleRedirect_def Let_def mode
    apply (simp only: loc res option.case fst_conv snd_conv
        redirectCountOf_def[symmetric] i1_def[symmetric] cnt if_False)
    apply (simp only: dom option.case del_def[symmetric] str if_True
        sensitiveNames_def[symmetric] \<sigma>1_def[symmetric])
    apply simp
    done
  then show ?thesis by blast
qed

text \<open>
  C5. On a redirect that reaches the body check, \<open>handleRedirect\<close> fails with the
  stream-body error when the status is not 303 and the record has a body with a \<open>pipe\<close>
  or a \<open>pipeTo\<close> function; in every other case, in particular for status 303 with a
  streaming body, the check passes and the next hop is called.
\<close>

theorem stream_body_rejected_unless_303:
  assumes "reachesStripping env i resp ru hq ht"
  shows "(status resp \<noteq> 303 \<and> streamingBody i \<longrightarrow>
           (\<exists>\<sigma>'. \<forall>f. handleRedirect env f i resp (\<sigma>, w) =
                        (Inl StreamBodyRedirect, (\<sigma>', w)))) \<and>
         (status resp = 303 \<or> \<not> streamingBody i \<longrightarrow>
           (\<exists>i' \<sigma>'. \<forall>f. handleRedirect env f i resp (\<sigma>, w) =
                           f (UrlString ru) i' (\<sigma>', w)))"
proof (intro conjI impI)
  assume "status resp \<noteq> 303 \<and> streamingBody i"
  then show "\<exists>\<sigma>'. \<forall>f. handleRedirect env f i resp (\<sigma>, w) = (Inl StreamBodyRedirect, (\<sigma>', w))"
    using handleRedirect_rejects_stream[OF assms] by blast
next
  assume replay: "status resp = 303 \<or> \<not> streamingBody i"
  obtain i' \<sigma>' where
    "\<And>f. handleRedirect env f i resp (\<sigma>, w) = f (UrlString ru) i' (\<sigma>', w)"
    by (rule handleRedirect_hands_over[OF assms replay, where \<sigma>=\<sigma> and w=w]) (rule that)
  then show "\<exists>i' \<sigma>'. \<forall>f. handleRedirect env f i resp (\<sigma>, w) = f (UrlString ru) i' (\<sigma>', w)"
    by blast
qed

theorem stream_body_rejected_witness:
  "reachesStripping exampleEnv streamInit exampleRedirect ''https://example.com/x''
     ''a.example.com'' ''example.com'' \<and>
   streamingBody streamInit \<and>
   (\<exists>\<sigma>'. \<forall>f. handleRedirect exampleEnv f streamInit exampleRedirect (exampleStore, 0) =
                (Inl StreamBodyRedirect, (\<sigma>', 0))) \<and>
   reachesStripping exampleEnv streamInit (exampleRedirect\<lparr>status := 303\<rparr>)
     ''https://example.com/x'' ''a.example.com'' ''example.com'' \<and>
   (\<exists>i' \<sigma>'. \<forall>f. handleRedirect exampleEnv f streamInit (exampleRedirect\<lparr>status := 303\<rparr>)
                    (exampleStore, 0) =
                   f (UrlString ''https://example.com/x'') i' (\<sigma>', 0))"
proof -
  have r: "reachesStripping exampleEnv streamInit (exampleRedirect\<lparr>status := s\<rparr>)
      ''https://example.com/x'' ''a.example.com'' ''example.com''" for s
    by (simp add: reachesStripping_def exampleEnv_def streamInit_def exampleRedirect_def
          get_def getAll_def toLowerCase_def toLowerCase_char_def redirectCountOf_def
          maxRedirectOf_def)
  have e: "exampleRedirect\<lparr>status := 302\<rparr> = exampleRedirect"
    by (simp add: exampleRedirect_def)
  have r2: "reachesStripping exampleEnv streamInit exampleRedirect
      ''https://example.com/x'' ''a.example.com'' ''example.com''"
    using r[of 302] by (simp only: e)
  have s: "streamingBody streamInit"
    by (simp add: streamingBody_def streamInit_def)
  have n: "status exampleRedirect \<noteq> 303"
    by (simp add: exampleRedirect_def)
  have a: "\<exists>\<sigma>'. \<forall>f. handleRedirect exampleEnv f streamInit exampleRedirect (exampleStore, 0) =
                (Inl StreamBodyRedirect, (\<sigma>', 0))"
    using stream_body_rejected_unless_303[OF r2, of exampleStore 0] s n by blast
  have b: "\<exists>i' \<sigma>'. \<forall>f. handleRedirect exampleEnv f streamInit (exampleRedirect\<lparr>status := 303\<rparr>)
                    (exampleStore, 0) =
                   f (UrlString ''https://example.com/x'') i' (\<sigma>', 0)"
    using stream_body_rejected_unless_303[OF r[of 303], of exampleStore 0] by simp
  from r2 s a r[of 303] b show ?thesis by (intro conjI)
qed

text \<open>
  What a followed hop does to the method, the body and the Content-Length entries: under
  the downgrade condition the method becomes \<open>GET\<close> and the body is cleared, and the
  Content-Length entries are removed when the headers are a \<open>Headers\<close> instance or a plain
  object; otherwise all three are unchanged. When the headers are an array of pairs the
  Content-Length entries are kept also under the downgrade.
\<close>

lemma downgrade_after_hop:
  assumes "reachesStripping env i resp ru hq ht"
    and "status resp = 303 \<or> \<not> streamingBody i"
  shows "\<exists>i' \<sigma>'.
      (\<forall>f. handleRedirect env f i resp (\<sigma>, w) = f (UrlString ru) i' (\<sigma>', w)) \<and>
      httpMethod i' = (if downgrades i resp then Some ''GET'' else httpMethod i) \<and>
      body i' = (if downgrades i resp then None else body i) \<and>
      named [''content-length''] (entries \<sigma>' i') =
        (if downgrades i resp \<and> \<not> arrayHeaders \<sigma> i then []
         else named [''content-length''] (entries \<sigma> i))"
proof -
  obtain i' \<sigma>' where
    call: "\<And>f. handleRedirect env f i resp (\<sigma>, w) = f (UrlString ru) i' (\<sigma>', w)"
    and m: "httpMethod i' = (if downgrades i resp then Some ''GET'' else httpMethod i)"
    and b: "body i' = (if downgrades i resp then None else body i)"
    and ent: "entries \<sigma>' i' =
       (if arrayHeaders \<sigma> i then entries \<sigma> i
        else filter (\<lambda>(k, v). (covered hq ht \<or> toLowerCase k \<notin> set sensitiveNames) \<and>
                             (\<not> downgrades i resp \<or> toLowerCase k \<noteq> ''content-length''))
               (entries \<sigma> i))"
    by (rule handleRedirect_hands_over[OF assms, where \<sigma>=\<sigma> and w=w]) (rule that)
  have "named [''content-length''] (entries \<sigma>' i') =
      (if downgrades i resp \<and> \<not> arrayHeaders \<sigma> i then []
       else named [''content-length''] (entries \<sigma> i))"
    using ent by (rule named_after_hop(2))
  with call m b show ?thesis by blast
qed

text \<open>
  C3, at a record whose headers are an array of pairs. On a 303 redirect the claim has
  the method set to \<open>GET\<close>, the body cleared and the Content-Length header deleted; the
  code sets the method and clears the body, and hands on a record that still presents the
  Content-Length entry, by the same key scan over array indices as for C1.
\<close>

theorem array_headers_keep_content_length:
  "arrayHeaders arrayStore exampleInit \<and>
   status (exampleRedirect\<lparr>status := 303\<rparr>) = 303 \<and>
   (\<exists>i'.
      (\<forall>f. handleRedirect exampleEnv f exampleInit (exampleRedirect\<lparr>status := 303\<rparr>)
             (arrayStore, 0) =
             f (UrlString ''https://example.com/x'') i' (arrayStore, 0)) \<and>
      httpMethod i' = Some ''GET'' \<and> body i' = None \<and>
      named [''content-length''] (entries arrayStore i') = [(''Content-Length'', ''3'')])"
proof -
  have r: "reachesStripping exampleEnv exampleInit (exampleRedirect\<lparr>status := 303\<rparr>)
     ''https://example.com/x'' ''a.example.com'' ''example.com''"
    by (simp add: reachesStripping_def exampleEnv_def exampleInit_def exampleRedirect_def
          get_def getAll_def toLowerCase_def toLowerCase_char_def redirectCountOf_def
          maxRedirectOf_def)
  have t: "status (exampleRedirect\<lparr>status := 303\<rparr>) = 303"
    by simp
  have a: "arrayHeaders arrayStore exampleInit"
    by (simp add: arrayHeaders_def arrayStore_def exampleInit_def lookup_def)
  have d: "downgrades exampleInit (exampleRedirect\<lparr>status := 303\<rparr>)"
    by (simp add: downgrades_def)
  obtain i' \<sigma>' where
    call: "\<And>f. handleRedirect exampleEnv f exampleInit (exampleRedirect\<lparr>status := 303\<rparr>)
        (arrayStore, 0) = f (UrlString ''https://example.com/x'') i' (\<sigma>', 0)"
    and hdr: "headers i' = headers exampleInit"
    and m: "httpMethod i' =
        (if downgrades exampleInit (exampleRedirect\<lparr>status := 303\<rparr>) then Some ''GET''
         else httpMethod exampleInit)"
    and b: "body i' =
        (if downgrades exampleInit (exampleRedirect\<lparr>status := 303\<rparr>) then None
         else body exampleInit)"
    and same: "arrayHeaders arrayStore exampleInit \<Longrightarrow> \<sigma>' = arrayStore"
    by (rule handleRedirect_hands_over[OF r disjI1[OF t], where \<sigma>=arrayStore and w=0])
       (rule that)
  have n: "named [''content-length''] (entries arrayStore i') = [(''Content-Length'', ''3'')]"
    by (simp add: named_def entries_def hdr arrayStore_def exampleInit_def lookup_def
          toLowerCase_def toLowerCase_char_def)
  have "httpMethod i' = Some ''GET''" "body i' = None"
    using m b d by simp_all
  with call same[OF a] n have "\<exists>i'.
      (\<forall>f. handleRedirect exampleEnv f exampleInit (exampleRedirect\<lparr>status := 303\<rparr>)
             (arrayStore, 0) =
             f (UrlString ''https://example.com/x'') i' (arrayStore, 0)) \<and>
      httpMethod i' = Some ''GET'' \<and> body i' = None \<and>
      named [''content-length''] (entries arrayStore i') = [(''Content-Length'', ''3'')]"
    by auto
  with a t show ?thesis by (intro conjI)
qed

section \<open>Cloning and sharing\<close>

text \<open>
  The record handed to the next hop: a copy of the previous record with the count raised
  by one and the method, the body and the referrer policy as the step sets them. The
  copy holds the same reference to the header collection as the previous record; no
  collection is created and no other collection is touched, so what the step deletes is
  deleted from the collection of the previous record.
\<close>

lemma next_hop_record_shares_headers:
  assumes "reachesStripping env i resp ru hq ht"
    and "status resp = 303 \<or> \<not> streamingBody i"
  shows "\<exists>i' \<sigma>'.
      (\<forall>f. handleRedirect env f i resp (\<sigma>, w) = f (UrlString ru) i' (\<sigma>', w)) \<and>
      redirectCount i' = Some (redirectCountOf i + 1) \<and>
      maxRedirect i' = maxRedirect i \<and>
      redirect i' = redirect i \<and>
      httpMethod i' = (if downgrades i resp then Some ''GET'' else httpMethod i) \<and>
      body i' = (if downgrades i resp then None else body i) \<and>
      referrerPolicy i' =
        (case get (rheaders resp) ''referrer-policy'' of
           None \<Rightarrow> referrerPolicy i
         | Some p \<Rightarrow> Some (parseReferrerPolicy p)) \<and>
      headers i' = headers i \<and>
      length \<sigma>' = length \<sigma> \<and>
      (\<forall>r. headers i \<noteq> Some r \<longrightarrow> lookup \<sigma>' r = lookup \<sigma> r) \<and>
      entries \<sigma>' i =
        (if arrayHeaders \<sigma> i then entries \<sigma> i
         else filter (\<lambda>(k, v). (covered hq ht \<or> toLowerCase k \<notin> set sensitiveNames) \<and>
                              (\<not> downgrades i resp \<or> toLowerCase k \<noteq> ''content-length''))
                (entries \<sigma> i))"
proof -
  obtain i' \<sigma>' where
    f: "\<And>f. handleRedirect env f i resp (\<sigma>, w) = f (UrlString ru) i' (\<sigma>', w)"
    "headers i' = headers i"
    "redirectCount i' = Some (redirectCountOf i + 1)"
    "maxRedirect i' = maxRedirect i"
    "redirect i' = redirect i"
    "httpMethod i' = (if downgrades i resp then Some ''GET'' else httpMethod i)"
    "body i' = (if downgrades i resp then None else body i)"
    "referrerPolicy i' =
       (case get (rheaders resp) ''referrer-policy'' of
          None \<Rightarrow> referrerPolicy i
        | Some p \<Rightarrow> Some (parseReferrerPolicy p))"
    "entries \<sigma>' i' =
       (if arrayHeaders \<sigma> i then entries \<sigma> i
        else filter (\<lambda>(k, v). (covered hq ht \<or> toLowerCase k \<notin> set sensitiveNames) \<and>
                             (\<not> downgrades i resp \<or> toLowerCase k \<noteq> ''content-length''))
               (entries \<sigma> i))"
    "length \<sigma>' = length \<sigma>"
    "\<And>r. headers i \<noteq> Some r \<Longrightarrow> lookup \<sigma>' r = lookup \<sigma> r"
    by (rule handleRedirect_hands_over[OF assms, where \<sigma>=\<sigma> and w=w]) (rule that)
  have same: "entries \<sigma>' i = entries \<sigma>' i'"
    by (simp add: entries_def f(2))
  show ?thesis
    by (rule exI[of _ i'], rule exI[of _ \<sigma>']) (simp add: f same)
qed

text \<open>
  C8, at a record whose headers are a plain object. The claim has the record of the
  previous hop and its headers left as they were; after the redirect of the example to a
  host that is not covered, with the downgrade to \<open>GET\<close>, the header object that the
  previous record holds has lost its Authorization and Content-Length properties: the
  spread at line 126 copies the record and not its headers.
\<close>

theorem previous_headers_mutated_in_place:
  "entries (fst (snd (handleRedirect exampleEnv stubFetchImpl exampleInit exampleRedirect
                        (exampleStore, 0)))) exampleInit = [(''Accept'', ''text/html'')] \<and>
   entries exampleStore exampleInit =
     [(''Authorization'', ''Bearer t''), (''Content-Length'', ''3''),
      (''Accept'', ''text/html'')]"
  by (simp add: handleRedirect_def exampleEnv_def exampleInit_def exampleRedirect_def
        exampleStore_def stubFetchImpl_def get_def getAll_def toLowerCase_def
        toLowerCase_char_def isDomainOrSubdomain_def suffix_def identifyDeleteHeader_def
        lookup_def deleteFromObject_def entries_def Let_def)


section \<open>Exact comparison with POST\<close>

text \<open>
  C10. The downgrade on 301 and 302 compares the method with the exact string \<open>POST\<close>:
  on a followed 301 or 302 redirect of a record whose method is anything else (lower-case
  \<open>post\<close>, for one), the method, the body and the Content-Length entries go unchanged
  to the next hop.
\<close>

theorem other_spelling_of_POST_not_downgraded:
  assumes "reachesStripping env i resp ru hq ht"
    and "\<not> streamingBody i"
    and "status resp = 301 \<or> status resp = 302"
    and "httpMethod i \<noteq> Some ''POST''"
  shows "\<exists>i' \<sigma>'.
      (\<forall>f. handleRedirect env f i resp (\<sigma>, w) = f (UrlString ru) i' (\<sigma>', w)) \<and>
      httpMethod i' = httpMethod i \<and> body i' = body i \<and>
      named [''content-length''] (entries \<sigma>' i') =
        named [''content-length''] (entries \<sigma> i)"
proof -
  have nd: "\<not> downgrades i resp"
    using assms(3,4) by (auto simp: downgrades_def)
  obtain i' \<sigma>' where
    call: "\<And>f. handleRedirect env f i resp (\<sigma>, w) = f (UrlString ru) i' (\<sigma>', w)"
    and m: "httpMethod i' = (if downgrades i resp then Some ''GET'' else httpMethod i)"
    and b: "body i' = (if downgrades i resp then None else body i)"
    and ent: "entries \<sigma>' i' =
       (if arrayHeaders \<sigma> i then entries \<sigma> i
        else filter (\<lambda>(k, v). (covered hq ht \<or> toLowerCase k \<notin> set sensitiveNames) \<and>
                             (\<not> downgrades i resp \<or> toLowerCase k \<noteq> ''content-length''))
               (entries \<sigma> i))"
    by (rule handleRedirect_hands_over[OF assms(1) disjI2[OF assms(2)], where \<sigma>=\<sigma> and w=w])
       (rule that)
  have "named [''content-length''] (entries \<sigma>' i') =
      (if downgrades i resp \<and> \<not> arrayHeaders \<sigma> i then []
       else named [''content-length''] (entries \<sigma> i))"
    using ent by (rule named_after_hop(2))
  then have cl: "named [''content-length''] (entries \<sigma>' i') =
      named [''content-length''] (entries \<sigma> i)"
    using nd by simp
  have m': "httpMethod i' = httpMethod i" and b': "body i' = body i"
    using m b nd by simp_all
  show ?thesis
    using call m' b' cl by blast
qed

theorem other_spelling_of_POST_witness:
  "reachesStripping exampleEnv (exampleInit\<lparr>httpMethod := Some ''post''\<rparr>) exampleRedirect
     ''https://example.com/x'' ''a.example.com'' ''example.com'' \<and>
   \<not> streamingBody (exampleInit\<lparr>httpMethod := Some ''post''\<rparr>) \<and>
   status exampleRedirect = 302 \<and>
   (\<exists>i' \<sigma>'.
      (\<forall>f. handleRedirect exampleEnv f (exampleInit\<lparr>httpMethod := Some ''post''\<rparr>)
             exampleRedirect (exampleStore, 0) =
             f (UrlString ''https://example.com/x'') i' (\<sigma>', 0)) \<and>
      httpMethod i' = Some ''post'' \<and> body i' = body exampleInit \<and>
      named [''content-length''] (entries \<sigma>' i') = [(''Content-Length'', ''3'')])"
proof -
  have r: "reachesStripping exampleEnv (exampleInit\<lparr>httpMethod := Some ''post''\<rparr>)
      exampleRedirect ''https://example.com/x'' ''a.example.com'' ''example.com''"
    by (simp add: reachesStripping_def exampleEnv_def exampleInit_def exampleRedirect_def
          get_def getAll_def toLowerCase_def toLowerCase_char_def redirectCountOf_def
          maxRedirectOf_def)
  have s: "\<not> streamingBody (exampleInit\<lparr>httpMethod := Some ''post''\<rparr>)"
    by (simp add: streamingBody_def exampleInit_def)
  have t: "status exampleRedirect = 302"
    by (simp add: exampleRedirect_def)
  have m: "httpMethod (exampleInit\<lparr>httpMethod := Some ''post''\<rparr>) \<noteq> Some ''POST''"
    by simp
  have n: "named [''content-length'']
      (entries exampleStore (exampleInit\<lparr>httpMethod := Some ''post''\<rparr>)) =
      [(''Content-Length'', ''3'')]"
    by (simp add: named_def entries_def exampleStore_def exampleInit_def lookup_def
          toLowerCase_def toLowerCase_char_def)
  have a: "\<exists>i' \<sigma>'.
      (\<forall>f. handleRedirect exampleEnv f (exampleInit\<lparr>httpMethod := Some ''post''\<rparr>)
             exampleRedirect (exampleStore, 0) =
             f (UrlString ''https://example.com/x'') i' (\<sigma>', 0)) \<and>
      httpMethod i' = Some ''post'' \<and> body i' = body exampleInit \<and>
      named [''content-length''] (entries \<sigma>' i') = [(''Content-Length'', ''3'')]"
    using other_spelling_of_POST_not_downgraded[OF r s disjI2[OF t] m, of exampleStore 0]
    by (auto simp: n)
  from r s t a show ?thesis by (intro conjI)
qed

section \<open>Mode dispatch\<close>

lemma handleRedirect_at_ceiling:
  assumes "redirect i = None \<or> redirect i = Some ''follow''"
    and "get (rheaders resp) ''location'' = Some l"
    and "resolve env l (url resp) = Some ru"
    and "maxRedirectOf i \<le> redirectCountOf i"
  shows "handleRedirect env f i resp st =
     (Inl (MaxRedirectReached (maxRedirectOf i) (url resp)), st)"
proof -
  from assms(1) have mode: "(case redirect i of None \<Rightarrow> ''follow'' | Some m \<Rightarrow> m) = ''follow''"
    by auto
  from assms(4) have "(case maxRedirect i of None \<Rightarrow> 20 | Some m \<Rightarrow> m)
      \<le> (case redirectCount i of None \<Rightarrow> 0 | Some c \<Rightarrow> c)"
    by (simp add: maxRedirectOf_def redirectCountOf_def)
  then show ?thesis
    unfolding handleRedirect_def Let_def mode
    by (simp add: assms(2,3) maxRedirectOf_def)
qed

lemma handleRedirect_bad_host:
  assumes "redirect i = None \<or> redirect i = Some ''follow''"
    and "get (rheaders resp) ''location'' = Some l"
    and "resolve env l (url resp) = Some ru"
    and "redirectCountOf i < maxRedirectOf i"
    and "hostname env ru = None \<or> hostname env (url resp) = None"
  shows "handleRedirect env f i resp st = (Inl InvalidURL, st)"
proof -
  from assms(1) have mode: "(case redirect i of None \<Rightarrow> ''follow'' | Some m \<Rightarrow> m) = ''follow''"
    by auto
  from assms(4) have cnt: "\<not> (case maxRedirect i of None \<Rightarrow> 20 | Some m \<Rightarrow> m)
      \<le> (case redirectCount i of None \<Rightarrow> 0 | Some c \<Rightarrow> c)"
    by (simp add: maxRedirectOf_def redirectCountOf_def)
  from assms(5) have dom: "isDomainOrSubdomain env (url resp) ru = None"
    by (auto simp: isDomainOrSubdomain_def split: option.splits)
  show ?thesis
    unfolding handleRedirect_def Let_def mode
    by (simp only: assms(2,3) option.case cnt if_False dom) simp
qed

text \<open>
  C6. When \<open>handleRedirect\<close> receives a redirect response it dispatches on the caller's
  redirect mode: \<open>error\<close> fails with the redirect-not-allowed error that carries the
  response URL; \<open>manual\<close> returns the response unchanged; any value other than \<open>error\<close>,
  \<open>manual\<close> and \<open>follow\<close> fails with the invalid-option error; \<open>follow\<close>, which is also
  the default when no mode is given, continues with the rest of the processing, every
  outcome of which is given: the response itself when it has no \<open>Location\<close>, the URL
  error when the target does not resolve or a URL has no host name, the redirect-limit
  error at the ceiling, the stream-body error at the body check, and otherwise the call
  of the next hop, whatever function stands for it, with the count raised by one.
\<close>

theorem redirect_mode_dispatch:
  "(redirect i = Some ''error'' \<longrightarrow>
      handleRedirect env f i resp (\<sigma>, w) = (Inl (RedirectNotAllowed (url resp)), (\<sigma>, w))) \<and>
   (redirect i = Some ''manual'' \<longrightarrow>
      handleRedirect env f i resp (\<sigma>, w) = (Inr resp, (\<sigma>, w))) \<and>
   (\<forall>m. redirect i = Some m \<and> m \<noteq> ''error'' \<and> m \<noteq> ''manual'' \<and> m \<noteq> ''follow'' \<longrightarrow>
      handleRedirect env f i resp (\<sigma>, w) = (Inl (InvalidRedirectOption m), (\<sigma>, w))) \<and>
   ((redirect i = None \<or> redirect i = Some ''follow'') \<and>
    get (rheaders resp) ''location'' = None \<longrightarrow>
      handleRedirect env f i resp (\<sigma>, w) = (Inr resp, (\<sigma>, w))) \<and>
   (\<forall>l. (redirect i = None \<or> redirect i = Some ''follow'') \<and>
      get (rheaders resp) ''location'' = Some l \<and> resolve env l (url resp) = None \<longrightarrow>
      handleRedirect env f i resp (\<sigma>, w) = (Inl InvalidURL, (\<sigma>, w))) \<and>
   (\<forall>l ru. (redirect i = None \<or> redirect i = Some ''follow'') \<and>
      get (rheaders resp) ''location'' = Some l \<and> resolve env l (url resp) = Some ru \<and>
      maxRedirectOf i \<le> redirectCountOf i \<longrightarrow>
      handleRedirect env f i resp (\<sigma>, w) =
        (Inl (MaxRedirectReached (maxRedirectOf i) (url resp)), (\<sigma>, w))) \<and>
   (\<forall>l ru. (redirect i = None \<or> redirect i = Some ''follow'') \<and>
      get (rheaders resp) ''location'' = Some l \<and> resolve env l (url resp) = Some ru \<and>
      redirectCountOf i < maxRedirectOf i \<and>
      (hostname env ru = None \<or> hostname env (url resp) = None) \<longrightarrow>
      handleRedirect env f i resp (\<sigma>, w) = (Inl InvalidURL, (\<sigma>, w))) \<and>
   (\<forall>ru hq ht. reachesStripping env i resp ru hq ht \<and>
      status resp \<noteq> 303 \<and> streamingBody i \<longrightarrow>
      (\<exists>\<sigma>'. \<forall>g. handleRedirect env g i resp (\<sigma>, w) = (Inl StreamBodyRedirect, (\<sigma>', w)))) \<and>
   (\<forall>ru hq ht. reachesStripping env i resp ru hq ht \<and>
      (status resp = 303 \<or> \<not> streamingBody i) \<longrightarrow>
      (\<exists>i' \<sigma>'.
         (\<forall>g. handleRedirect env g i resp (\<sigma>, w) = g (UrlString ru) i' (\<sigma>', w)) \<and>
         redirectCount i' = Some (redirectCountOf i + 1) \<and> redirect i' = redirect i))"
proof -
  have a: "handleRedirect env f i resp (\<sigma>, w) =
      (Inl (RedirectNotAllowed (url resp)), (\<sigma>, w))" if "redirect i = Some ''error''"
    using that by (simp add: handleRedirect_def)
  have b: "handleRedirect env f i resp (\<sigma>, w) = (Inr resp, (\<sigma>, w))"
    if "redirect i = Some ''manual''"
    using that by (simp add: handleRedirect_def)
  have c: "handleRedirect env f i resp (\<sigma>, w) = (Inl (InvalidRedirectOption m), (\<sigma>, w))"
    if "redirect i = Some m \<and> m \<noteq> ''error'' \<and> m \<noteq> ''manual'' \<and> m \<noteq> ''follow''" for m
    using that by (simp add: handleRedirect_def)
  have d: "handleRedirect env f i resp (\<sigma>, w) = (Inr resp, (\<sigma>, w))"
    if "(redirect i = None \<or> redirect i = Some ''follow'') \<and>
        get (rheaders resp) ''location'' = None"
  proof -
    from that have mode: "(case redirect i of None \<Rightarrow> ''follow'' | Some m \<Rightarrow> m) = ''follow''"
      by auto
    show ?thesis
      unfolding handleRedirect_def Let_def mode using that by simp
  qed
  have e: "handleRedirect env f i resp (\<sigma>, w) = (Inl InvalidURL, (\<sigma>, w))"
    if "(redirect i = None \<or> redirect i = Some ''follow'') \<and>
        get (rheaders resp) ''location'' = Some l \<and> resolve env l (url resp) = None" for l
  proof -
    from that have mode: "(case redirect i of None \<Rightarrow> ''follow'' | Some m \<Rightarrow> m) = ''follow''"
      by auto
    show ?thesis
      unfolding handleRedirect_def Let_def mode using that by simp
  qed
  have g: "handleRedirect env f i resp (\<sigma>, w) =
        (Inl (MaxRedirectReached (maxRedirectOf i) (url resp)), (\<sigma>, w))"
    if "(redirect i = None \<or> redirect i = Some ''follow'') \<and>
        get (rheaders resp) ''location'' = Some l \<and> resolve env l (url resp) = Some ru \<and>
        maxRedirectOf i \<le> redirectCountOf i" for l ru
    using that by (intro handleRedirect_at_ceiling[of i resp l env ru]) simp_all
  have h: "handleRedirect env f i resp (\<sigma>, w) = (Inl InvalidURL, (\<sigma>, w))"
    if "(redirect i = None \<or> redirect i = Some ''follow'') \<and>
        get (rheaders resp) ''location'' = Some l \<and> resolve env l (url resp) = Some ru \<and>
        redirectCountOf i < maxRedirectOf i \<and>
        (hostname env ru = None \<or> hostname env (url resp) = None)" for l ru
    using that by (intro handleRedirect_bad_host[of i resp l env ru]) simp_all
  have j: "\<exists>\<sigma>'. \<forall>g. handleRedirect env g i resp (\<sigma>, w) = (Inl StreamBodyRedirect, (\<sigma>', w))"
    if "reachesStripping env i resp ru hq ht \<and> status resp \<noteq> 303 \<and> streamingBody i"
    for ru hq ht
    using that by (intro handleRedirect_rejects_stream[of env i resp ru hq ht]) simp_all
  have k: "\<exists>i' \<sigma>'.
         (\<forall>g. handleRedirect env g i resp (\<sigma>, w) = g (UrlString ru) i' (\<sigma>', w)) \<and>
         redirectCount i' = Some (redirectCountOf i + 1) \<and> redirect i' = redirect i"
    if "reachesStripping env i resp ru hq ht \<and> (status resp = 303 \<or> \<not> streamingBody i)"
    for ru hq ht
  proof -
    from that have reach: "reachesStripping env i resp ru hq ht"
      and replay: "status resp = 303 \<or> \<not> streamingBody i"
      by simp_all
    obtain i' \<sigma>' where
      "\<And>g. handleRedirect env g i resp (\<sigma>, w) = g (UrlString ru) i' (\<sigma>', w)"
      "redirectCount i' = Some (redirectCountOf i + 1)"
      "redirect i' = redirect i"
      by (rule handleRedirect_hands_over[OF reach replay, where \<sigma>=\<sigma> and w=w]) (rule that)
    then show ?thesis by blast
  qed
  show ?thesis
    apply (intro conjI allI impI)
            apply (erule a)
           apply (erule b)
          apply (erule c)
         apply (erule d)
        apply (erule e)
       apply (erule g)
      apply (erule h)
     apply (erule j)
    apply (erule k)
    done
qed

theorem redirect_mode_dispatch_witness:
  "handleRedirect exampleEnv stubFetchImpl (exampleInit\<lparr>redirect := Some ''error''\<rparr>)
     exampleRedirect (exampleStore, 0) =
     (Inl (RedirectNotAllowed ''https://a.example.com/''), (exampleStore, 0)) \<and>
   handleRedirect exampleEnv stubFetchImpl (exampleInit\<lparr>redirect := Some ''manual''\<rparr>)
     exampleRedirect (exampleStore, 0) = (Inr exampleRedirect, (exampleStore, 0)) \<and>
   handleRedirect exampleEnv stubFetchImpl (exampleInit\<lparr>redirect := Some ''Follow''\<rparr>)
     exampleRedirect (exampleStore, 0) =
     (Inl (InvalidRedirectOption ''Follow''), (exampleStore, 0)) \<and>
   redirect exampleInit = None \<and>
   handleRedirect exampleEnv stubFetchImpl exampleInit (exampleRedirect\<lparr>rheaders := []\<rparr>)
     (exampleStore, 0) = (Inr (exampleRedirect\<lparr>rheaders := []\<rparr>), (exampleStore, 0)) \<and>
   handleRedirect exampleEnv stubFetchImpl (exampleInit\<lparr>maxRedirect := Some 0\<rparr>)
     exampleRedirect (exampleStore, 0) =
     (Inl (MaxRedirectReached 0 ''https://a.example.com/''), (exampleStore, 0)) \<and>
   reachesStripping exampleEnv exampleInit exampleRedirect ''https://example.com/x''
     ''a.example.com'' ''example.com'' \<and>
   \<not> streamingBody exampleInit \<and>
   (\<exists>i' \<sigma>'.
      (\<forall>g. handleRedirect exampleEnv g exampleInit exampleRedirect (exampleStore, 0) =
             g (UrlString ''https://example.com/x'') i' (\<sigma>', 0)) \<and>
      redirectCount i' = Some 1 \<and> redirect i' = None)"
proof -
  note t = redirect_mode_dispatch[where env = exampleEnv and f = stubFetchImpl
      and \<sigma> = exampleStore and w = 0]
  have a: "handleRedirect exampleEnv stubFetchImpl (exampleInit\<lparr>redirect := Some ''error''\<rparr>)
     exampleRedirect (exampleStore, 0) =
     (Inl (RedirectNotAllowed ''https://a.example.com/''), (exampleStore, 0))"
    using t[of "exampleInit\<lparr>redirect := Some ''error''\<rparr>" exampleRedirect]
    by (simp add: exampleRedirect_def)
  have b: "handleRedirect exampleEnv stubFetchImpl (exampleInit\<lparr>redirect := Some ''manual''\<rparr>)
     exampleRedirect (exampleStore, 0) = (Inr exampleRedirect, (exampleStore, 0))"
    using t[of "exampleInit\<lparr>redirect := Some ''manual''\<rparr>" exampleRedirect]
    by simp
  have c: "handleRedirect exampleEnv stubFetchImpl (exampleInit\<lparr>redirect := Some ''Follow''\<rparr>)
     exampleRedirect (exampleStore, 0) =
     (Inl (InvalidRedirectOption ''Follow''), (exampleStore, 0))"
    using t[of "exampleInit\<lparr>redirect := Some ''Follow''\<rparr>" exampleRedirect]
    by simp
  have n: "redirect exampleInit = None"
    by (simp add: exampleInit_def)
  have l0: "get (rheaders (exampleRedirect\<lparr>rheaders := []\<rparr>)) ''location'' = None"
    by (simp add: get_def getAll_def)
  have d: "handleRedirect exampleEnv stubFetchImpl exampleInit (exampleRedirect\<lparr>rheaders := []\<rparr>)
     (exampleStore, 0) = (Inr (exampleRedirect\<lparr>rheaders := []\<rparr>), (exampleStore, 0))"
    using t[of exampleInit "exampleRedirect\<lparr>rheaders := []\<rparr>"] n l0
    by simp
  have l1: "get (rheaders exampleRedirect) ''location'' = Some ''https://example.com/x''"
    by (simp add: exampleRedirect_def get_def getAll_def toLowerCase_def toLowerCase_char_def)
  have r1: "resolve exampleEnv ''https://example.com/x'' (url exampleRedirect) =
      Some ''https://example.com/x''"
    by (simp add: exampleEnv_def)
  have m0: "maxRedirectOf (exampleInit\<lparr>maxRedirect := Some 0\<rparr>) = 0"
      "redirectCountOf (exampleInit\<lparr>maxRedirect := Some 0\<rparr>) = 0"
      "redirect (exampleInit\<lparr>maxRedirect := Some 0\<rparr>) = None"
      "url exampleRedirect = ''https://a.example.com/''"
    by (simp_all add: maxRedirectOf_def redirectCountOf_def exampleInit_def exampleRedirect_def)
  have e: "handleRedirect exampleEnv stubFetchImpl (exampleInit\<lparr>maxRedirect := Some 0\<rparr>)
     exampleRedirect (exampleStore, 0) =
     (Inl (MaxRedirectReached 0 ''https://a.example.com/''), (exampleStore, 0))"
    using t[of "exampleInit\<lparr>maxRedirect := Some 0\<rparr>" exampleRedirect] l1 r1 m0
    by simp
  have r: "reachesStripping exampleEnv exampleInit exampleRedirect
      ''https://example.com/x'' ''a.example.com'' ''example.com''"
    by (simp add: reachesStripping_def exampleEnv_def exampleInit_def exampleRedirect_def
          get_def getAll_def toLowerCase_def toLowerCase_char_def redirectCountOf_def
          maxRedirectOf_def)
  have s: "\<not> streamingBody exampleInit"
    by (simp add: streamingBody_def exampleInit_def)
  have k: "redirectCountOf exampleInit = 0"
    by (simp add: redirectCountOf_def exampleInit_def)
  from t[of exampleInit exampleRedirect] r s
  have "\<exists>i' \<sigma>'.
      (\<forall>g. handleRedirect exampleEnv g exampleInit exampleRedirect (exampleStore, 0) =
             g (UrlString ''https://example.com/x'') i' (\<sigma>', 0)) \<and>
      redirectCount i' = Some (redirectCountOf exampleInit + 1) \<and>
      redirect i' = redirect exampleInit"
    by blast
  then have h: "\<exists>i' \<sigma>'.
      (\<forall>g. handleRedirect exampleEnv g exampleInit exampleRedirect (exampleStore, 0) =
             g (UrlString ''https://example.com/x'') i' (\<sigma>', 0)) \<and>
      redirectCount i' = Some 1 \<and> redirect i' = None"
    by (simp add: k n)
  from a b c n d e r s h show ?thesis by (intro conjI)
qed

section \<open>Cookie injection\<close>

text \<open>
  C9 (as amended). For every request target that does not own an appendable header
  collection, every record whose headers are a plain object and every non-empty cookie
  string, \<open>addCookiesToRequest\<close> returns a new record that differs from the given one
  only in its headers, which are a new plain object: the properties of the old one, with
  the key \<open>cookie\<close> set to the cookie string, in place of any value the old object had
  under that key. The old object is left as it was.
\<close>

theorem plain_headers_cookie_overwritten:
  assumes "cookie \<noteq> ''''"
    and "headers i = Some r"
    and "lookup \<sigma> r = Some (PlainObj kv)"
    and "\<forall>u q hs. inp = RequestObj u q \<longrightarrow> lookup \<sigma> q \<noteq> Some (HeadersObj hs)"
  shows "addCookiesToRequest inp i cookie \<sigma> =
           (i\<lparr>headers := Some (length \<sigma>)\<rparr>,
            \<sigma> @ [PlainObj (AList.update ''cookie'' cookie kv)]) \<and>
         map_of (AList.update ''cookie'' cookie kv) = (map_of kv)(''cookie'' \<mapsto> cookie) \<and>
         lookup (\<sigma> @ [PlainObj (AList.update ''cookie'' cookie kv)]) r = Some (PlainObj kv)"
proof -
  have tgt: "appendable \<sigma> (targetHeaders inp) = None"
    using assms(4)
    by (auto simp: appendable_def targetHeaders_def
        split: input.splits option.splits hobj.splits)
  have own: "appendable \<sigma> (headers i) = None" "spread \<sigma> (headers i) = kv"
    using assms(2,3) by (simp_all add: appendable_def spread_def)
  have "addCookiesToRequest inp i cookie \<sigma> =
           (i\<lparr>headers := Some (length \<sigma>)\<rparr>,
            \<sigma> @ [PlainObj (AList.update ''cookie'' cookie kv)])"
    unfolding addCookiesToRequest_def tgt own
    using assms(1) by (simp add: alloc_def)
  moreover have "map_of (AList.update ''cookie'' cookie kv) = (map_of kv)(''cookie'' \<mapsto> cookie)"
    by (rule update_conv')
  moreover have "lookup (\<sigma> @ [PlainObj (AList.update ''cookie'' cookie kv)]) r =
      Some (PlainObj kv)"
    using assms(3) by (auto simp: lookup_def nth_append split: if_splits)
  ultimately show ?thesis by (intro conjI)
qed

theorem plain_headers_cookie_overwritten_witness:
  "''id=2'' \<noteq> '''' \<and>
   headers (exampleInit\<lparr>headers := Some 2\<rparr>) = Some 2 \<and>
   lookup (exampleStore @ [PlainObj [(''cookie'', ''id=1''), (''Cookie'', ''old=1'')]]) 2 =
     Some (PlainObj [(''cookie'', ''id=1''), (''Cookie'', ''old=1'')]) \<and>
   addCookiesToRequest (UrlString ''https://a.example.com/'') (exampleInit\<lparr>headers := Some 2\<rparr>)
     ''id=2'' (exampleStore @ [PlainObj [(''cookie'', ''id=1''), (''Cookie'', ''old=1'')]]) =
     (exampleInit\<lparr>headers := Some 3\<rparr>,
      exampleStore @ [PlainObj [(''cookie'', ''id=1''), (''Cookie'', ''old=1'')],
                      PlainObj [(''cookie'', ''id=2''), (''Cookie'', ''old=1'')]])"
proof -
  have c: "''id=2'' \<noteq> ''''" by simp
  have h: "headers (exampleInit\<lparr>headers := Some 2\<rparr>) = Some 2" by simp
  have l: "lookup (exampleStore @ [PlainObj [(''cookie'', ''id=1''), (''Cookie'', ''old=1'')]]) 2 =
     Some (PlainObj [(''cookie'', ''id=1''), (''Cookie'', ''old=1'')])"
    by (simp add: lookup_def exampleStore_def)
  have t: "\<forall>u q hs. UrlString ''https://a.example.com/'' = RequestObj u q \<longrightarrow>
      lookup (exampleStore @ [PlainObj [(''cookie'', ''id=1''), (''Cookie'', ''old=1'')]]) q
        \<noteq> Some (HeadersObj hs)"
    by simp
  have a: "addCookiesToRequest (UrlString ''https://a.example.com/'')
     (exampleInit\<lparr>headers := Some 2\<rparr>)
     ''id=2'' (exampleStore @ [PlainObj [(''cookie'', ''id=1''), (''Cookie'', ''old=1'')]]) =
     (exampleInit\<lparr>headers := Some 3\<rparr>,
      exampleStore @ [PlainObj [(''cookie'', ''id=1''), (''Cookie'', ''old=1'')],
                      PlainObj [(''cookie'', ''id=2''), (''Cookie'', ''old=1'')]])"
    using plain_headers_cookie_overwritten[OF c h l t]
    by (simp add: exampleStore_def)
  from c h l a show ?thesis by (intro conjI)
qed

text \<open>
  C9 as stated fails when the request target is a \<open>Request\<close> object: its own headers are
  appendable, so the cookie is appended there, and the record, whose headers are a plain
  object, is returned as it is, with no \<open>cookie\<close> key set.
\<close>

theorem request_target_takes_cookie_counterexample:
  "headers exampleInit = Some 0 \<and>
   lookup exampleStore 0 =
     Some (PlainObj [(''Authorization'', ''Bearer t''), (''Content-Length'', ''3''),
                     (''Accept'', ''text/html'')]) \<and>
   addCookiesToRequest (RequestObj ''https://a.example.com/'' 1) exampleInit ''id=2''
     exampleStore =
     (exampleInit,
      exampleStore[1 := HeadersObj [(''cookie'', ''id=1''), (''accept'', ''text/html''),
                                    (''cookie'', ''id=2'')]]) \<and>
   map_of (entries
             (snd (addCookiesToRequest (RequestObj ''https://a.example.com/'' 1) exampleInit
                     ''id=2'' exampleStore))
             (fst (addCookiesToRequest (RequestObj ''https://a.example.com/'' 1) exampleInit
                     ''id=2'' exampleStore)))
     ''cookie'' = None"
  by (simp add: addCookiesToRequest_def appendable_def targetHeaders_def exampleInit_def
        exampleStore_def lookup_def entries_def)

section \<open>The dispatcher\<close>

lemma addCookiesToRequest_redirectCount:
  "addCookiesToRequest inp i cookie \<sigma> = (i2, \<sigma>2) \<Longrightarrow> redirectCount i2 = redirectCount i"
  by (auto simp: addCookiesToRequest_def alloc_def split: if_splits option.splits)

lemma fetchCookieWrapper_after_transport:
  assumes "getCookieString env (case inp of UrlString u \<Rightarrow> u | RequestObj u r \<Rightarrow> u) w =
             (Inr cookie, w1)"
    and "addCookiesToRequest inp (i\<lparr>redirect := Some ''manual''\<rparr>) cookie \<sigma> = (i2, \<sigma>2)"
    and "fetch env inp i2 \<sigma>2 w1 = (Inr resp, w2)"
    and "storeCookies env (getCookiesFromResponse env resp) (url resp) w2 = (Inr x, w3)"
  shows "fetchCookieWrapper env inp i (\<sigma>, w) =
     (if isRedirect (status resp)
      then handleRedirect env (fetchCookieWrapper env) i
             (if 0 < redirectCountOf i then resp\<lparr>redirected := True\<rparr> else resp) (\<sigma>2, w3)
      else (Inr (if 0 < redirectCountOf i then resp\<lparr>redirected := True\<rparr> else resp),
            (\<sigma>2, w3)))"
proof -
  have c: "redirectCount i2 = redirectCount i"
    using addCookiesToRequest_redirectCount[OF assms(2)] by simp
  show ?thesis
    by (subst fetchCookieWrapper.simps)
       (simp add: assms c Let_def redirectCountOf_def)
qed

text \<open>
  C7. A status is a redirect status exactly when it is one of 301, 302, 303, 307 and
  308. When the cookie jar calls succeed and the transport returns a response, the
  dispatcher hands a response with a redirect status to \<open>handleRedirect\<close>, and returns a
  response with any other status as the result, whatever its headers (a \<open>Location\<close>
  included): verbatim when the record's redirect count is zero, that is, when no hop
  came before, so that its \<open>redirected\<close> flag is the transport's, false for a transport
  in manual mode.
\<close>

theorem non_redirect_returned_verbatim:
  assumes "getCookieString env (case inp of UrlString u \<Rightarrow> u | RequestObj u r \<Rightarrow> u) w =
             (Inr cookie, w1)"
    and "addCookiesToRequest inp (i\<lparr>redirect := Some ''manual''\<rparr>) cookie \<sigma> = (i2, \<sigma>2)"
    and "fetch env inp i2 \<sigma>2 w1 = (Inr resp, w2)"
    and "storeCookies env (getCookiesFromResponse env resp) (url resp) w2 = (Inr x, w3)"
  shows "(isRedirect (status resp) \<longleftrightarrow> status resp \<in> {301, 302, 303, 307, 308}) \<and>
         (status resp \<in> {301, 302, 303, 307, 308} \<longrightarrow>
            fetchCookieWrapper env inp i (\<sigma>, w) =
              handleRedirect env (fetchCookieWrapper env) i
                (if 0 < redirectCountOf i then resp\<lparr>redirected := True\<rparr> else resp)
                (\<sigma>2, w3)) \<and>
         (status resp \<notin> {301, 302, 303, 307, 308} \<longrightarrow>
            fetchCookieWrapper env inp i (\<sigma>, w) =
              (Inr (if 0 < redirectCountOf i then resp\<lparr>redirected := True\<rparr> else resp),
               (\<sigma>2, w3))) \<and>
         (status resp \<notin> {301, 302, 303, 307, 308} \<and> redirectCountOf i \<le> 0 \<longrightarrow>
            fetchCookieWrapper env inp i (\<sigma>, w) = (Inr resp, (\<sigma>2, w3))) \<and>
         (status resp \<notin> {301, 302, 303, 307, 308} \<and> redirectCountOf i \<le> 0 \<and>
          \<not> redirected resp \<longrightarrow>
            (\<exists>out st. fetchCookieWrapper env inp i (\<sigma>, w) = (Inr out, st) \<and>
               \<not> redirected out))"
proof -
  note step = fetchCookieWrapper_after_transport[OF assms]
  have r: "isRedirect (status resp) \<longleftrightarrow> status resp \<in> {301, 302, 303, 307, 308}"
    by (simp add: isRedirect_def)
  show ?thesis
    unfolding step r[symmetric] by auto
qed

theorem non_redirect_returned_verbatim_witness:
  "getCookieString exampleEnv ''https://example.com/x'' 0 = (Inr '''', 0) \<and>
   addCookiesToRequest (UrlString ''https://example.com/x'')
     (exampleInit\<lparr>redirect := Some ''manual''\<rparr>) '''' exampleStore =
     (exampleInit\<lparr>redirect := Some ''manual''\<rparr>, exampleStore) \<and>
   fetch exampleEnv (UrlString ''https://example.com/x'')
     (exampleInit\<lparr>redirect := Some ''manual''\<rparr>) exampleStore 0 = (Inr exampleFinal, 1) \<and>
   storeCookies exampleEnv (getCookiesFromResponse exampleEnv exampleFinal)
     (url exampleFinal) 1 = (Inr (), 1) \<and>
   status exampleFinal = 200 \<and>
   get (rheaders exampleFinal) ''location'' = Some ''https://example.com/y'' \<and>
   fetchCookieWrapper exampleEnv (UrlString ''https://example.com/x'') exampleInit
     (exampleStore, 0) = (Inr exampleFinal, (exampleStore, 1)) \<and>
   redirected exampleFinal = False"
proof -
  have g: "getCookieString exampleEnv
      (case UrlString ''https://example.com/x'' of UrlString u \<Rightarrow> u | RequestObj u r \<Rightarrow> u) 0 =
      (Inr '''', 0)"
    by (simp add: exampleEnv_def)
  have a: "addCookiesToRequest (UrlString ''https://example.com/x'')
     (exampleInit\<lparr>redirect := Some ''manual''\<rparr>) '''' exampleStore =
     (exampleInit\<lparr>redirect := Some ''manual''\<rparr>, exampleStore)"
    by (simp add: addCookiesToRequest_def)
  have f: "fetch exampleEnv (UrlString ''https://example.com/x'')
     (exampleInit\<lparr>redirect := Some ''manual''\<rparr>) exampleStore 0 = (Inr exampleFinal, 1)"
    by (simp add: exampleEnv_def)
  have s: "storeCookies exampleEnv (getCookiesFromResponse exampleEnv exampleFinal)
     (url exampleFinal) 1 = (Inr (), 1)"
    by (simp add: getCookiesFromResponse_def exampleFinal_def get_def getAll_def
          toLowerCase_def toLowerCase_char_def)
  have t: "status exampleFinal = 200" "redirected exampleFinal = False"
    by (simp_all add: exampleFinal_def)
  have l: "get (rheaders exampleFinal) ''location'' = Some ''https://example.com/y''"
    by (simp add: exampleFinal_def get_def getAll_def toLowerCase_def toLowerCase_char_def)
  have k: "redirectCountOf exampleInit = 0"
    by (simp add: redirectCountOf_def exampleInit_def)
  have r: "fetchCookieWrapper exampleEnv (UrlString ''https://example.com/x'') exampleInit
     (exampleStore, 0) = (Inr exampleFinal, (exampleStore, 1))"
    using non_redirect_returned_verbatim[OF g a f s] by (simp add: t k)
  from g a f s t l r show ?thesis by simp
qed

section \<open>The redirect ceiling\<close>

lemma logged_fields [simp]:
  "hostname (logged env) = hostname env"
  "resolve (logged env) = resolve env"
  "ignoreError (logged env) = ignoreError env"
  "splitCookiesString (logged env) = splitCookiesString env"
  by (simp_all add: logged_def)

lemma logged_fetch:
  "fetch env inp i \<sigma> w = (r, w') \<Longrightarrow>
   fetch (logged env) inp i \<sigma> (w, calls) = (r, (w', calls @ [(i, r)]))"
  by (simp add: logged_def)

lemma logged_getCookieString:
  "getCookieString env u w = (r, w') \<Longrightarrow>
   getCookieString (logged env) u (w, calls) = (r, (w', calls))"
  by (simp add: logged_def)

lemma logged_setCookie:
  "setCookie env c u b w = (r, w') \<Longrightarrow>
   setCookie (logged env) c u b (w, calls) = (r, (w', calls))"
  by (simp add: logged_def)

lemma logged_storeCookies:
  assumes "jarSucceeds env"
  shows "\<exists>w'. storeCookies (logged env) cs u (w, calls) = (Inr (), (w', calls))"
proof (induction cs arbitrary: w)
  case Nil
  show ?case by simp
next
  case (Cons c cs)
  from assms obtain w1 where s: "setCookie env c u (ignoreError env) w = (Inr (), w1)"
    unfolding jarSucceeds_def by blast
  from Cons[of w1] obtain w2 where
    t: "storeCookies (logged env) cs u (w1, calls) = (Inr (), (w2, calls))"
    by blast
  show ?case
    by (simp add: logged_setCookie[OF s] t)
qed

lemma getCookiesFromResponse_logged [simp]:
  "getCookiesFromResponse (logged env) resp = getCookiesFromResponse env resp"
  by (simp add: getCookiesFromResponse_def split: headers_api.splits option.splits)

lemma addCookiesToRequest_fields:
  assumes "addCookiesToRequest inp i cookie \<sigma> = (i2, \<sigma>2)"
  shows "redirectCount i2 = redirectCount i" "maxRedirect i2 = maxRedirect i"
    "redirect i2 = redirect i" "body i2 = body i"
  using assms
  by (auto simp: addCookiesToRequest_def alloc_def split: if_splits option.splits)

lemma dispatcher_one_hop:
  assumes ar: "alwaysRedirects env" and js: "jarSucceeds env"
  shows "\<exists>i2 \<sigma>2 w3 raw r l ru hq ht.
     fetchCookieWrapper (logged env) inp i (\<sigma>, (w, calls0)) =
       handleRedirect (logged env) (fetchCookieWrapper (logged env)) i r
         (\<sigma>2, (w3, calls0 @ [(i2, Inr raw)])) \<and>
     redirectCountOf i2 = redirectCountOf i \<and>
     url r = url raw \<and> status r = status raw \<and>
     get (rheaders r) ''location'' = Some l \<and>
     resolve env l (url r) = Some ru \<and>
     hostname env (url r) = Some hq \<and> hostname env ru = Some ht"
proof -
  define u where "u = (case inp of UrlString u \<Rightarrow> u | RequestObj u r \<Rightarrow> u)"
  from js obtain c w1 where gc: "getCookieString env u w = (Inr c, w1)"
    unfolding jarSucceeds_def by blast
  obtain i2 \<sigma>2 where
    ac: "addCookiesToRequest inp (i\<lparr>redirect := Some ''manual''\<rparr>) c \<sigma> = (i2, \<sigma>2)"
    by (cases "addCookiesToRequest inp (i\<lparr>redirect := Some ''manual''\<rparr>) c \<sigma>")
  have "case fetch env inp i2 \<sigma>2 w1 of
          (Inl e, w') \<Rightarrow> False
        | (Inr r, w') \<Rightarrow>
            isRedirect (status r) \<and>
            (case get (rheaders r) ''location'' of
               None \<Rightarrow> False
             | Some l \<Rightarrow>
                 (case resolve env l (url r) of
                    None \<Rightarrow> False
                  | Some ru \<Rightarrow> hostname env ru \<noteq> None \<and> hostname env (url r) \<noteq> None))"
    by (rule ar[unfolded alwaysRedirects_def, rule_format])
  then obtain raw w2 l ru hq ht where
    fr: "fetch env inp i2 \<sigma>2 w1 = (Inr raw, w2)"
    and red: "isRedirect (status raw)"
    and loc: "get (rheaders raw) ''location'' = Some l"
    and res: "resolve env l (url raw) = Some ru"
    and hq: "hostname env (url raw) = Some hq"
    and ht: "hostname env ru = Some ht"
    by (auto split: prod.splits sum.splits option.splits)
  obtain w3 where
    sc: "storeCookies (logged env) (getCookiesFromResponse (logged env) raw) (url raw)
           (w2, calls0 @ [(i2, Inr raw)]) = (Inr (), (w3, calls0 @ [(i2, Inr raw)]))"
    using logged_storeCookies[OF js] by blast
  define r where "r = (if 0 < redirectCountOf i then raw\<lparr>redirected := True\<rparr> else raw)"
  have same: "url r = url raw" "status r = status raw" "rheaders r = rheaders raw"
    by (simp_all add: r_def)
  have A: "fetchCookieWrapper (logged env) inp i (\<sigma>, (w, calls0)) =
       handleRedirect (logged env) (fetchCookieWrapper (logged env)) i r
         (\<sigma>2, (w3, calls0 @ [(i2, Inr raw)]))"
    using fetchCookieWrapper_after_transport[OF
        logged_getCookieString[OF gc[unfolded u_def], of calls0] ac
        logged_fetch[OF fr, of calls0] sc] red
    by (simp add: r_def)
  have B: "redirectCountOf i2 = redirectCountOf i"
    using addCookiesToRequest_fields(1)[OF ac] by (simp add: redirectCountOf_def)
  show ?thesis
    by (intro exI[of _ i2] exI[of _ \<sigma>2] exI[of _ w3] exI[of _ raw] exI[of _ r]
          exI[of _ l] exI[of _ ru] exI[of _ hq] exI[of _ ht])
       (simp add: A B same loc res hq ht)
qed

lemma redirect_chain:
  assumes ar: "alwaysRedirects env" and js: "jarSucceeds env"
  shows "(redirect i = None \<or> redirect i = Some ''follow'') \<Longrightarrow> \<not> streamingBody i \<Longrightarrow>
     maxRedirectOf i = int N \<Longrightarrow> redirectCountOf i = int k \<Longrightarrow> k \<le> N \<Longrightarrow>
     \<exists>\<sigma>' w' calls r.
       fetchCookieWrapper (logged env) inp i (\<sigma>, (w, calls0)) =
         (Inl (MaxRedirectReached (int N) (url r)), (\<sigma>', (w', calls0 @ calls))) \<and>
       map (redirectCountOf \<circ> fst) calls = map int [k..<Suc N] \<and>
       snd (last calls) = Inr r"
proof (induction "N - k" arbitrary: k i inp \<sigma> w calls0)
  case 0
  then have kN: "k = N" by simp
  from dispatcher_one_hop[OF ar js, of inp i \<sigma> w calls0]
  obtain i2 \<sigma>2 w3 raw r l ru where
    step: "fetchCookieWrapper (logged env) inp i (\<sigma>, (w, calls0)) =
       handleRedirect (logged env) (fetchCookieWrapper (logged env)) i r
         (\<sigma>2, (w3, calls0 @ [(i2, Inr raw)]))"
    and c2: "redirectCountOf i2 = redirectCountOf i"
    and same: "url r = url raw"
    and loc: "get (rheaders r) ''location'' = Some l"
    and res: "resolve env l (url r) = Some ru"
    by blast
  have "maxRedirectOf i \<le> redirectCountOf i"
    using "0.prems" kN by simp
  from handleRedirect_at_ceiling[of i r l "logged env" ru, OF "0.prems"(1) loc _ this]
  have "fetchCookieWrapper (logged env) inp i (\<sigma>, (w, calls0)) =
      (Inl (MaxRedirectReached (int N) (url raw)), (\<sigma>2, (w3, calls0 @ [(i2, Inr raw)])))"
    using res step same "0.prems"(3) by simp
  moreover have "map (redirectCountOf \<circ> fst) [(i2, Inr raw :: error + response)] =
      map int [k..<Suc N]"
    using c2 "0.prems"(4) kN by simp
  ultimately show ?case
    by (intro exI[of _ \<sigma>2] exI[of _ w3] exI[of _ "[(i2, Inr raw)]"] exI[of _ raw]) simp
next
  case (Suc d)
  then have kN: "k < N" and d: "d = N - Suc k" by simp_all
  from dispatcher_one_hop[OF ar js, of inp i \<sigma> w calls0]
  obtain i2 \<sigma>2 w3 raw r l ru hq ht where
    step: "fetchCookieWrapper (logged env) inp i (\<sigma>, (w, calls0)) =
       handleRedirect (logged env) (fetchCookieWrapper (logged env)) i r
         (\<sigma>2, (w3, calls0 @ [(i2, Inr raw)]))"
    and c2: "redirectCountOf i2 = redirectCountOf i"
    and same: "url r = url raw"
    and loc: "get (rheaders r) ''location'' = Some l"
    and res: "resolve env l (url r) = Some ru"
    and hq: "hostname env (url r) = Some hq"
    and ht: "hostname env ru = Some ht"
    by blast
  have reach: "reachesStripping (logged env) i r ru hq ht"
    using Suc.prems kN loc res hq ht by (simp add: reachesStripping_def)
  have replay: "status r = 303 \<or> \<not> streamingBody i"
    using Suc.prems(2) by simp
  obtain i' \<sigma>' where
    call: "\<And>f. handleRedirect (logged env) f i r (\<sigma>2, (w3, calls0 @ [(i2, Inr raw)])) =
        f (UrlString ru) i' (\<sigma>', (w3, calls0 @ [(i2, Inr raw)]))"
    and cnt: "redirectCount i' = Some (redirectCountOf i + 1)"
    and lim: "maxRedirect i' = maxRedirect i"
    and mode: "redirect i' = redirect i"
    and bdy: "body i' = (if downgrades i r then None else body i)"
    by (rule handleRedirect_hands_over[OF reach replay, where \<sigma>=\<sigma>2
          and w="(w3, calls0 @ [(i2, Inr raw)])"]) (rule that)
  have p1: "redirect i' = None \<or> redirect i' = Some ''follow''"
    using Suc.prems(1) mode by simp
  have p2: "\<not> streamingBody i'"
    using Suc.prems(2) bdy by (simp add: streamingBody_def)
  have p3: "maxRedirectOf i' = int N"
    using Suc.prems(3) lim by (simp add: maxRedirectOf_def)
  have p4: "redirectCountOf i' = int (Suc k)"
    using Suc.prems(4) cnt by (simp add: redirectCountOf_def)
  have p5: "Suc k \<le> N" using kN by simp
  from Suc.hyps(1)[OF d p1 p2 p3 p4 p5, of "UrlString ru" \<sigma>' w3 "calls0 @ [(i2, Inr raw)]"]
  obtain \<sigma>'' w' calls r2 where
    rest: "fetchCookieWrapper (logged env) (UrlString ru) i'
        (\<sigma>', (w3, calls0 @ [(i2, Inr raw)])) =
        (Inl (MaxRedirectReached (int N) (url r2)),
         (\<sigma>'', (w', (calls0 @ [(i2, Inr raw)]) @ calls)))"
    and counts: "map (redirectCountOf \<circ> fst) calls = map int [Suc k..<Suc N]"
    and lst: "snd (last calls) = Inr r2"
    by blast
  have ne: "calls \<noteq> []"
    using counts kN by auto
  have "fetchCookieWrapper (logged env) inp i (\<sigma>, (w, calls0)) =
      (Inl (MaxRedirectReached (int N) (url r2)),
       (\<sigma>'', (w', calls0 @ ((i2, Inr raw) # calls))))"
    using step call rest by simp
  moreover have "map (redirectCountOf \<circ> fst) ((i2, Inr raw) # calls) = map int [k..<Suc N]"
    using counts c2 Suc.prems(4) kN by (simp add: upt_conv_Cons)
  moreover have "snd (last ((i2, Inr raw) # calls)) = Inr r2"
    using lst ne by simp
  ultimately show ?case by blast
qed

text \<open>
  C2. Take a call whose record has limit \<open>N\<close> (\<open>maxRedirect\<close>, 20 when absent) and redirect
  count zero, in follow mode and with a body that can be sent again, against a transport
  that answers every request with a redirect that can be followed. Then the transport
  is called \<open>N + 1\<close> times, for the first request and for exactly \<open>N\<close> hops; the records
  of these calls carry the counts \<open>0, 1, ..., N\<close>, one more at every hop; and the redirect
  that answers the last of them makes the call fail with the redirect-limit error, which
  carries the limit and the URL of that response.
\<close>

theorem exactly_maxRedirect_hops_followed:
  assumes "alwaysRedirects env" and "jarSucceeds env"
    and "redirect i = None \<or> redirect i = Some ''follow''"
    and "\<not> streamingBody i"
    and "maxRedirectOf i = int N"
    and "redirectCountOf i = 0"
  shows "\<exists>\<sigma>' w' calls r.
       fetchCookieWrapper (logged env) inp i (\<sigma>, (w, [])) =
         (Inl (MaxRedirectReached (int N) (url r)), (\<sigma>', (w', calls))) \<and>
       length calls = N + 1 \<and>
       map (redirectCountOf \<circ> fst) calls = map int [0..<N + 1] \<and>
       snd (last calls) = Inr r"
proof -
  from redirect_chain[OF assms(1,2,3,4,5), of 0 inp \<sigma> w "[]"] assms(6)
  obtain \<sigma>' w' calls r where
    res: "fetchCookieWrapper (logged env) inp i (\<sigma>, (w, [])) =
         (Inl (MaxRedirectReached (int N) (url r)), (\<sigma>', (w', calls)))"
    and counts: "map (redirectCountOf \<circ> fst) calls = map int [0..<Suc N]"
    and lst: "snd (last calls) = Inr r"
    by auto
  from counts have "length (map (redirectCountOf \<circ> fst) calls) = length (map int [0..<Suc N])"
    by (rule arg_cong)
  then have "length calls = N + 1" by simp
  with res counts lst show ?thesis by auto
qed

theorem exactly_maxRedirect_hops_witness:
  "alwaysRedirects loopEnv \<and> jarSucceeds loopEnv \<and>
   redirect (exampleInit\<lparr>maxRedirect := Some 2\<rparr>) = None \<and>
   \<not> streamingBody (exampleInit\<lparr>maxRedirect := Some 2\<rparr>) \<and>
   maxRedirectOf (exampleInit\<lparr>maxRedirect := Some 2\<rparr>) = int 2 \<and>
   redirectCountOf (exampleInit\<lparr>maxRedirect := Some 2\<rparr>) = 0 \<and>
   (\<exists>\<sigma>' w' calls r.
       fetchCookieWrapper (logged loopEnv) (UrlString ''https://example.com/x'')
         (exampleInit\<lparr>maxRedirect := Some 2\<rparr>) (exampleStore, (0, [])) =
         (Inl (MaxRedirectReached (int 2) (url r)), (\<sigma>', (w', calls))) \<and>
       length calls = 2 + 1 \<and>
       map (redirectCountOf \<circ> fst) calls = map int [0..<2 + 1] \<and>
       snd (last calls) = Inr r)"
proof -
  have a: "alwaysRedirects loopEnv"
    by (simp add: alwaysRedirects_def loopEnv_def exampleEnv_def loopResponse_def
          isRedirect_def get_def getAll_def toLowerCase_def toLowerCase_char_def)
  have j: "jarSucceeds loopEnv"
    by (simp add: jarSucceeds_def loopEnv_def exampleEnv_def)
  have m: "redirect (exampleInit\<lparr>maxRedirect := Some 2\<rparr>) = None"
    by (simp add: exampleInit_def)
  have s: "\<not> streamingBody (exampleInit\<lparr>maxRedirect := Some 2\<rparr>)"
    by (simp add: streamingBody_def exampleInit_def)
  have l: "maxRedirectOf (exampleInit\<lparr>maxRedirect := Some 2\<rparr>) = int 2"
    by (simp add: maxRedirectOf_def)
  have c: "redirectCountOf (exampleInit\<lparr>maxRedirect := Some 2\<rparr>) = 0"
    by (simp add: redirectCountOf_def exampleInit_def)
  note t = exactly_maxRedirect_hops_followed[OF a j disjI1[OF m] s l c,
      of "UrlString ''https://example.com/x''" exampleStore 0]
  from a j m s l c t show ?thesis by (intro conjI)
qed

section \<open>Referrer-policy propagation\<close>

text \<open>
  C4 (as amended). For every Referrer-Policy header value, \<open>parseReferrerPolicy\<close> splits
  the value on runs of commas and whitespace and returns the last token that is not empty
  and is a member of the policy set; tokens outside the set are ignored, and the result
  is the empty string when no such token exists. On a followed redirect whose response
  carries the header, that result is the referrer policy of the record handed to the
  next hop.
\<close>

theorem referrer_policy_last_nonempty_member:
  "parseReferrerPolicy h =
     (case filter (\<lambda>t. t \<noteq> '''' \<and> t \<in> referrerPolicy_set) (splitPolicy h) of
        [] \<Rightarrow> ''''
      | ts \<Rightarrow> last ts) \<and>
   (reachesStripping env i resp ru hq ht \<and> (status resp = 303 \<or> \<not> streamingBody i) \<and>
    get (rheaders resp) ''referrer-policy'' = Some h \<longrightarrow>
      (\<exists>i' \<sigma>'.
         (\<forall>f. handleRedirect env f i resp (\<sigma>, w) = f (UrlString ru) i' (\<sigma>', w)) \<and>
         referrerPolicy i' =
           Some (case filter (\<lambda>t. t \<noteq> '''' \<and> t \<in> referrerPolicy_set) (splitPolicy h) of
                   [] \<Rightarrow> ''''
                 | ts \<Rightarrow> last ts)))"
proof (intro conjI impI)
  show "parseReferrerPolicy h =
     (case filter (\<lambda>t. t \<noteq> '''' \<and> t \<in> referrerPolicy_set) (splitPolicy h) of
        [] \<Rightarrow> ''''
      | ts \<Rightarrow> last ts)"
    by (rule parseReferrerPolicy_last_valid)
next
  assume a: "reachesStripping env i resp ru hq ht \<and>
    (status resp = 303 \<or> \<not> streamingBody i) \<and>
    get (rheaders resp) ''referrer-policy'' = Some h"
  then have reach: "reachesStripping env i resp ru hq ht"
    and replay: "status resp = 303 \<or> \<not> streamingBody i"
    and hdr: "get (rheaders resp) ''referrer-policy'' = Some h"
    by simp_all
  obtain i' \<sigma>' where
    call: "\<And>f. handleRedirect env f i resp (\<sigma>, w) = f (UrlString ru) i' (\<sigma>', w)"
    and pol: "referrerPolicy i' =
       (case get (rheaders resp) ''referrer-policy'' of
          None \<Rightarrow> referrerPolicy i
        | Some p \<Rightarrow> Some (parseReferrerPolicy p))"
    by (rule handleRedirect_hands_over[OF reach replay, where \<sigma>=\<sigma> and w=w]) (rule that)
  have "referrerPolicy i' =
      Some (case filter (\<lambda>t. t \<noteq> '''' \<and> t \<in> referrerPolicy_set) (splitPolicy h) of
              [] \<Rightarrow> ''''
            | ts \<Rightarrow> last ts)"
    using pol hdr parseReferrerPolicy_last_valid[of h] by simp
  with call show "\<exists>i' \<sigma>'.
         (\<forall>f. handleRedirect env f i resp (\<sigma>, w) = f (UrlString ru) i' (\<sigma>', w)) \<and>
         referrerPolicy i' =
           Some (case filter (\<lambda>t. t \<noteq> '''' \<and> t \<in> referrerPolicy_set) (splitPolicy h) of
                   [] \<Rightarrow> ''''
                 | ts \<Rightarrow> last ts)"
    by blast
qed

theorem referrer_policy_witness:
  "reachesStripping exampleEnv exampleInit policyRedirect ''https://example.com/x''
     ''a.example.com'' ''example.com'' \<and>
   \<not> streamingBody exampleInit \<and>
   get (rheaders policyRedirect) ''referrer-policy'' = Some ''origin, bogus same-origin,'' \<and>
   parseReferrerPolicy ''origin, bogus same-origin,'' = ''same-origin'' \<and>
   (\<exists>i' \<sigma>'.
      (\<forall>f. handleRedirect exampleEnv f exampleInit policyRedirect (exampleStore, 0) =
             f (UrlString ''https://example.com/x'') i' (\<sigma>', 0)) \<and>
      referrerPolicy i' = Some ''same-origin'')"
proof -
  have r: "reachesStripping exampleEnv exampleInit policyRedirect
      ''https://example.com/x'' ''a.example.com'' ''example.com''"
    by (simp add: reachesStripping_def exampleEnv_def exampleInit_def policyRedirect_def
          exampleRedirect_def get_def getAll_def toLowerCase_def toLowerCase_char_def
          redirectCountOf_def maxRedirectOf_def)
  have s: "\<not> streamingBody exampleInit"
    by (simp add: streamingBody_def exampleInit_def)
  have g: "get (rheaders policyRedirect) ''referrer-policy'' =
      Some ''origin, bogus same-origin,''"
    by (simp add: policyRedirect_def exampleRedirect_def get_def getAll_def toLowerCase_def
          toLowerCase_char_def)
  have v: "(case filter (\<lambda>t. t \<noteq> '''' \<and> t \<in> referrerPolicy_set)
                  (splitPolicy ''origin, bogus same-origin,'') of
              [] \<Rightarrow> ''''
            | ts \<Rightarrow> last ts) = ''same-origin''"
    by (simp add: splitPolicy_def isSeparator_def referrerPolicy_set_def)
  note t = referrer_policy_last_nonempty_member[of "''origin, bogus same-origin,''"
      exampleEnv exampleInit policyRedirect "''https://example.com/x''" "''a.example.com''"
      "''example.com''" exampleStore 0]
  have p: "parseReferrerPolicy ''origin, bogus same-origin,'' = ''same-origin''"
    using t v by simp
  have e: "\<exists>i' \<sigma>'.
      (\<forall>f. handleRedirect exampleEnv f exampleInit policyRedirect (exampleStore, 0) =
             f (UrlString ''https://example.com/x'') i' (\<sigma>', 0)) \<and>
      referrerPolicy i' = Some ''same-origin''"
    using t r s g v by simp
  from r s g p e show ?thesis by (intro conjI)
qed

text \<open>
  C4 as stated fails on a value that ends with a separator: the split of \<open>origin,\<close> ends
  with an empty token, which is listed in the policy set, so the last listed token is the
  empty string, while the loop skips empty tokens and returns \<open>origin\<close>.
\<close>

theorem parseReferrerPolicy_trailing_separator_counterexample:
  "parseReferrerPolicy ''origin,'' = ''origin'' \<and> lastListedToken ''origin,'' = ''''"
  by (simp add: parseReferrerPolicy_def lastListedToken_def splitPolicy_def isSeparator_def
        referrerPolicy_set_def)

end
